theory Spec2Isabelle
  imports Complex_Main
begin

section \<open>The Small Radio Telescope daemon: data model\<close>

text \<open>
  A shallow embedding of \<^verbatim>\<open>srt/daemon/daemon.py\<close> (class
  \<^verbatim>\<open>SmallRadioTelescopeDaemon\<close>). Python floats are read as reals, so the
  results are about the arithmetic the code writes down, not about rounding.
  An azimuth/elevation pair is the Python tuple \<^verbatim>\<open>(az, el)\<close>.
\<close>

type_synonym azel = "real \<times> real"

text \<open>The exceptions that the modelled code can raise.\<close>

datatype exn =
    IndexError
  | ValueError
  | KeyError
  | ConnectionRefusedError
  | FileNotFoundError
  | ZeroDivisionError
  | OverflowError

text \<open>
  The values put on \<^verbatim>\<open>radio_queue\<close>: strings, floats, integers, booleans
  and lists of floats. \<^verbatim>\<open>PAzel az el\<close> is the string
  \<^verbatim>\<open>f"azel_{az}_{el}"\<close>.
\<close>

datatype pval =
    PStr string
  | PAzel real real
  | PNum real
  | PInt int
  | PBool bool
  | PList "real list"

text \<open>
  The messages handed to \<^verbatim>\<open>log_message\<close>. Each constructor is one f-string
  of the source; \<^verbatim>\<open>ExnText e\<close> is \<^verbatim>\<open>str(e)\<close> of a caught exception.
  The time stamp stored beside a message is not modelled.
\<close>

datatype log_msg =
    ObjectNotInBounds string
  | AzelNotInBounds azel
  | OffsetOutOfBounds azel
  | MovedOutOfBounds string
  | CalibrationDone
  | AlreadyRecording
  | RunningCommand string
  | CommandNotIdentified string
  | ExnText exn

text \<open>
  A recorder task (\<^verbatim>\<open>RadioSaveRawTask\<close>, \<^verbatim>\<open>RadioSaveSpecRadTask\<close>):
  the constructor arguments the daemon passes and whether \<^verbatim>\<open>start()\<close> and
  \<^verbatim>\<open>terminate()\<close> have been called on the handle.
\<close>

datatype task_kind = SaveRaw | SaveSpecRad

record task =
  task_kind :: task_kind
  task_samp :: real
  task_name :: "string option"
  started :: bool
  terminated :: bool

text \<open>
  The fields of \<^verbatim>\<open>self\<close>. Two more fields stand for the world around the
  command interpreter thread: \<^verbatim>\<open>slept\<close> lists the arguments of its
  \<^verbatim>\<open>sleep\<close> calls in order, and \<^verbatim>\<open>rotor_readings\<close> lists the values the
  rotor thread will still write into \<^verbatim>\<open>rotor_location\<close>, one per poll of a
  waiting pointing operation; once they are used up the location stays as it is.
  \<^verbatim>\<open>radio_queue\<close> holds the entries in the order they were put.
\<close>

record daemon =
  stow_location :: azel
  cal_location :: azel
  beamwidth :: real
  temp_sys :: real
  temp_cal :: real
  radio_num_bins :: nat
  radio_center_frequency :: real
  radio_sample_frequency :: real
  radio_autostart :: bool
  cal_values :: "real list"
  cal_power :: real
  ephemeris_locations :: "string \<rightharpoonup> azel"
  ephemeris_cmd_location :: "string option"
  rotor_location :: azel
  rotor_destination :: azel
  rotor_offsets :: azel
  rotor_cmd_location :: azel
  radio_queue :: "(string \<times> pval) list"
  radio_save_raw_task :: "task option"
  radio_save_spec_task :: "task option"
  radio_process_terminated :: bool
  current_queue_item :: string
  command_error_logs :: "log_msg list"
  slept :: "real list"
  rotor_readings :: "azel list"

text \<open>
  The collaborators whose code is not part of the daemon are parameters:
  \<^verbatim>\<open>Rotor.angles_within_bounds\<close>, \<^verbatim>\<open>azel_within_range\<close>, numpy's
  \<^verbatim>\<open>np.cos\<close> and \<^verbatim>\<open>np.pi\<close>, Python's
  \<^verbatim>\<open>float\<close> (\<^verbatim>\<open>None\<close> is its ValueError), \<^verbatim>\<open>datetime.strptime\<close>
  with the format \<^verbatim>\<open>%Y:%j:%H:%M:%S\<close> (as seconds since the epoch), the clock
  \<^verbatim>\<open>time()\<close>, and what \<^verbatim>\<open>calibration.json\<close> holds when
  \<^verbatim>\<open>calibrate\<close> opens it. A float is a real here, so the infinities and NaN
  that \<^verbatim>\<open>float\<close> can return are outside the model, and the clock is read once
  per command.
\<close>

record calibration_json =
  json_cal_values :: "real list option"
  json_cal_pwr :: "real option"

record externals =
  angles_within_bounds :: "real \<Rightarrow> real \<Rightarrow> bool"
  azel_within_range :: "azel \<Rightarrow> azel \<Rightarrow> bool"
  np_cos :: "real \<Rightarrow> real"
  np_pi :: real
  to_float :: "string \<Rightarrow> real option"
  strptime_YjHMS :: "string \<Rightarrow> real option"
  time_now :: real
  calibration_file :: "calibration_json option"

text \<open>
  What a call does: it returns, it never returns (\<^verbatim>\<open>Blocked\<close>, with the state
  in which it waits for ever), or it raises. The state is kept in every case, since
  the assignments made before a wait or a raise stay in \<^verbatim>\<open>self\<close>.
\<close>

datatype outcome =
    Returned daemon
  | Blocked daemon
  | Raised exn daemon

fun state_of :: "outcome \<Rightarrow> daemon" where
  "state_of (Returned s) = s"
| "state_of (Blocked s) = s"
| "state_of (Raised e s) = s"

fun and_then :: "outcome \<Rightarrow> (daemon \<Rightarrow> outcome) \<Rightarrow> outcome" where
  "and_then (Returned s) f = f s"
| "and_then (Blocked s) f = Blocked s"
| "and_then (Raised e s) f = Raised e s"

section \<open>Small effects\<close>

definition log_message :: "log_msg \<Rightarrow> daemon \<Rightarrow> daemon" where
  "log_message m s = s\<lparr>command_error_logs := command_error_logs s @ [m]\<rparr>"

definition radio_put :: "string \<times> pval \<Rightarrow> daemon \<Rightarrow> daemon" where
  "radio_put e s = s\<lparr>radio_queue := radio_queue s @ [e]\<rparr>"

text \<open>
  \<^verbatim>\<open>time.sleep\<close> first turns its argument into a signed 64-bit count of
  nanoseconds and raises OverflowError when the count does not fit, which is the case
  beyond about 9.2e9 seconds in either direction; then it raises ValueError on a
  negative argument. An infinite argument, which no real stands for, fails with the
  same OverflowError.
\<close>

definition sleep_limit :: real where
  "sleep_limit = (2 ^ 63 - 1) / 10 ^ 9"

definition sleep :: "real \<Rightarrow> daemon \<Rightarrow> outcome" where
  "sleep d s =
     (if sleep_limit < \<bar>d\<bar> then Raised OverflowError s
      else if d < 0 then Raised ValueError s
      else Returned (s\<lparr>slept := slept s @ [d]\<rparr>))"

text \<open>\<^verbatim>\<open>tuple(map(add, a, b))\<close> on two pairs.\<close>

definition add_azel :: "azel \<Rightarrow> azel \<Rightarrow> azel" where
  "add_azel a b = (fst a + fst b, snd a + snd b)"

definition within_bounds :: "externals \<Rightarrow> azel \<Rightarrow> bool" where
  "within_bounds X p = angles_within_bounds X (fst p) (snd p)"

text \<open>
  The arrival wait
  \<^verbatim>\<open>while not azel_within_range(self.rotor_location, self.rotor_cmd_location): sleep(0.1)\<close>.
  Each turn sleeps 0.1 and then sees the next reading of the rotor thread. With no
  reading left the location never changes again and the loop never ends.
\<close>

fun poll_arrival :: "externals \<Rightarrow> azel list \<Rightarrow> daemon \<Rightarrow> outcome" where
  "poll_arrival X [] s =
     (if azel_within_range X (rotor_location s) (rotor_cmd_location s)
      then Returned (s\<lparr>rotor_readings := []\<rparr>)
      else Blocked (s\<lparr>rotor_readings := []\<rparr>))"
| "poll_arrival X (p # ps) s =
     (if azel_within_range X (rotor_location s) (rotor_cmd_location s)
      then Returned (s\<lparr>rotor_readings := p # ps\<rparr>)
      else poll_arrival X ps (s\<lparr>slept := slept s @ [1 / 10], rotor_location := p\<rparr>))"

definition wait_for_arrival :: "externals \<Rightarrow> daemon \<Rightarrow> outcome" where
  "wait_for_arrival X s = poll_arrival X (rotor_readings s) s"

section \<open>Pointing operations\<close>

definition point_at_offset :: "externals \<Rightarrow> real \<Rightarrow> real \<Rightarrow> daemon \<Rightarrow> outcome" where
  "point_at_offset X az_off el_off s =
     (let new_rotor_offsets = (az_off, el_off);
          new_rotor_cmd_location = add_azel (rotor_destination s) new_rotor_offsets
      in if within_bounds X new_rotor_cmd_location
         then wait_for_arrival X
                (s\<lparr>rotor_offsets := new_rotor_offsets,
                   rotor_cmd_location := new_rotor_cmd_location\<rparr>)
         else Returned (log_message (OffsetOutOfBounds new_rotor_offsets) s))"

definition point_at_object :: "externals \<Rightarrow> string \<Rightarrow> daemon \<Rightarrow> outcome" where
  "point_at_object X object_id s =
     (let s1 = radio_put (''soutrack'', PStr object_id) (s\<lparr>rotor_offsets := (0, 0)\<rparr>)
      in case ephemeris_locations s1 object_id of
           None \<Rightarrow> Raised KeyError s1
         | Some new_rotor_cmd_location \<Rightarrow>
             if within_bounds X new_rotor_cmd_location
             then wait_for_arrival X
                    (s1\<lparr>ephemeris_cmd_location := Some object_id,
                        rotor_destination := new_rotor_cmd_location,
                        rotor_cmd_location := new_rotor_cmd_location\<rparr>)
             else Returned
                    ((log_message (ObjectNotInBounds object_id) s1)
                       \<lparr>ephemeris_cmd_location := None\<rparr>))"

definition point_at_azel :: "externals \<Rightarrow> real \<Rightarrow> real \<Rightarrow> daemon \<Rightarrow> outcome" where
  "point_at_azel X az el s =
     (let s1 = radio_put (''soutrack'', PAzel az el)
                 (s\<lparr>ephemeris_cmd_location := None, rotor_offsets := (0, 0)\<rparr>);
          new_rotor_destination = (az, el);
          new_rotor_cmd_location = new_rotor_destination
      in if within_bounds X new_rotor_cmd_location
         then wait_for_arrival X
                (s1\<lparr>rotor_destination := new_rotor_destination,
                    rotor_cmd_location := new_rotor_cmd_location\<rparr>)
         else Returned (log_message (AzelNotInBounds new_rotor_cmd_location) s1))"

definition stow :: "externals \<Rightarrow> daemon \<Rightarrow> outcome" where
  "stow X s =
     (let s1 = radio_put (''soutrack'', PStr ''at_stow'') (s\<lparr>ephemeris_cmd_location := None\<rparr>)
      in wait_for_arrival X
           (s1\<lparr>rotor_offsets := (0, 0),
               rotor_destination := stow_location s1,
               rotor_cmd_location := stow_location s1\<rparr>))"

text \<open>A \<^verbatim>\<open>for\<close> loop over a list: the body runs on each element in turn, and a
  body that blocks or raises ends the loop.\<close>

fun for_each :: "'a list \<Rightarrow> ('a \<Rightarrow> daemon \<Rightarrow> outcome) \<Rightarrow> daemon \<Rightarrow> outcome" where
  "for_each [] f s = Returned s"
| "for_each (x # xs) f s = and_then (f x s) (for_each xs f)"

text \<open>The offsets \<^verbatim>\<open>(az_dif, el_dif)\<close> that the scan computes in turn \<^verbatim>\<open>scan\<close>
  for an object at \<^verbatim>\<open>dest\<close>.\<close>

definition n_point_scan_offsets :: "externals \<Rightarrow> real \<Rightarrow> azel \<Rightarrow> nat \<Rightarrow> azel" where
  "n_point_scan_offsets X bw dest scan =
     (let i = int (scan div 5) - 2;
          j = int (scan mod 5) - 2;
          el_dif = real_of_int i * bw * (1 / 2);
          az_dif_scalar = np_cos X ((snd dest + el_dif) * np_pi X / 180);
          az_dif = real_of_int j * bw * (1 / 2) / az_dif_scalar
      in (az_dif, el_dif))"

definition n_point_scan_body :: "externals \<Rightarrow> string \<Rightarrow> nat \<Rightarrow> daemon \<Rightarrow> outcome" where
  "n_point_scan_body X object_id scan s =
     (case ephemeris_locations s object_id of
        None \<Rightarrow> Raised KeyError s
      | Some new_rotor_destination \<Rightarrow>
          (let new_rotor_offsets = n_point_scan_offsets X (beamwidth s) new_rotor_destination scan
           in and_then
                (if within_bounds X new_rotor_destination
                 then point_at_offset X (fst new_rotor_offsets) (snd new_rotor_offsets)
                        (s\<lparr>rotor_destination := new_rotor_destination\<rparr>)
                 else Returned s)
                (sleep 5)))"

definition n_point_scan :: "externals \<Rightarrow> string \<Rightarrow> daemon \<Rightarrow> outcome" where
  "n_point_scan X object_id s =
     and_then
       (for_each [0..<25] (n_point_scan_body X object_id)
          (radio_put (''soutrack'', PStr object_id) (s\<lparr>ephemeris_cmd_location := None\<rparr>)))
       (\<lambda>t. Returned (t\<lparr>rotor_offsets := (0, 0), ephemeris_cmd_location := Some object_id\<rparr>))"

definition beam_switch_offsets :: "externals \<Rightarrow> real \<Rightarrow> azel \<Rightarrow> nat \<Rightarrow> azel" where
  "beam_switch_offsets X bw dest j =
     (let az_dif_scalar = np_cos X (snd dest * np_pi X / 180);
          az_dif = real_of_int (int j mod 3 - 1) * bw / az_dif_scalar
      in (az_dif, 0))"

definition beam_switch_body :: "externals \<Rightarrow> azel \<Rightarrow> nat \<Rightarrow> daemon \<Rightarrow> outcome" where
  "beam_switch_body X new_rotor_destination j s =
     (let s1 = radio_put (''beam_switch'', PInt (int j + 1)) s;
          new_rotor_offsets = beam_switch_offsets X (beamwidth s1) new_rotor_destination j
      in and_then
           (if within_bounds X new_rotor_destination
            then point_at_offset X (fst new_rotor_offsets) (snd new_rotor_offsets)
                   (s1\<lparr>rotor_destination := new_rotor_destination\<rparr>)
            else Returned s1)
           (sleep 5))"

definition beam_switch :: "externals \<Rightarrow> string \<Rightarrow> daemon \<Rightarrow> outcome" where
  "beam_switch X object_id s =
     (let s1 = radio_put (''soutrack'', PStr object_id) (s\<lparr>ephemeris_cmd_location := None\<rparr>)
      in case ephemeris_locations s1 object_id of
           None \<Rightarrow> Raised KeyError s1
         | Some new_rotor_destination \<Rightarrow>
             and_then
               (for_each [0..<3] (beam_switch_body X new_rotor_destination) s1)
               (\<lambda>t. Returned
                  ((radio_put (''beam_switch'', PInt 0) (t\<lparr>rotor_offsets := (0, 0)\<rparr>))
                     \<lparr>ephemeris_cmd_location := Some object_id\<rparr>)))"

section \<open>The ephemeris refresh loop\<close>

text \<open>
  One turn of the loop of \<^verbatim>\<open>update_ephemeris_location\<close>, up to its
  \<^verbatim>\<open>sleep(1)\<close>. \<^verbatim>\<open>table\<close> is what the tracker's
  \<^verbatim>\<open>get_all_azimuth_elevation()\<close> returns in this turn.
\<close>

definition update_ephemeris_location_body ::
  "externals \<Rightarrow> (string \<rightharpoonup> azel) \<Rightarrow> daemon \<Rightarrow> outcome" where
  "update_ephemeris_location_body X table s =
     (let s1 = s\<lparr>ephemeris_locations := table\<rparr>
      in case ephemeris_cmd_location s1 of
           None \<Rightarrow> Returned s1
         | Some object_id \<Rightarrow>
             (case ephemeris_locations s1 object_id of
                None \<Rightarrow> Raised KeyError s1
              | Some new_rotor_destination \<Rightarrow>
                  (let new_rotor_cmd_location = add_azel new_rotor_destination (rotor_offsets s1)
                   in if within_bounds X new_rotor_destination
                         \<and> within_bounds X new_rotor_cmd_location
                      then Returned (s1\<lparr>rotor_destination := new_rotor_destination,
                                        rotor_cmd_location := new_rotor_cmd_location\<rparr>)
                      else Returned ((log_message (MovedOutOfBounds object_id) s1)
                                       \<lparr>ephemeris_cmd_location := None\<rparr>))))"

section \<open>Calibration, recording and radio settings\<close>

text \<open>
  The calibration values chosen in \<^verbatim>\<open>__init__\<close>. \<^verbatim>\<open>file\<close> is
  \<^verbatim>\<open>None\<close> when \<^verbatim>\<open>calibration.json\<close> is not a file; a key the document
  lacks raises KeyError, which the constructor swallows, keeping what was assigned
  before. Dividing by a zero \<^verbatim>\<open>TSYS + TCAL\<close> raises.
\<close>

definition init_calibration ::
  "nat \<Rightarrow> real \<Rightarrow> real \<Rightarrow> calibration_json option \<Rightarrow> exn + (real list \<times> real)" where
  "init_calibration num_bins tsys tcal file =
     (if tsys + tcal = 0 then Inl ZeroDivisionError
      else
        (let default_values = replicate num_bins 1;
             default_power = 1 / (tsys + tcal)
         in case file of
              None \<Rightarrow> Inr (default_values, default_power)
            | Some cal_data \<Rightarrow>
                (case json_cal_values cal_data of
                   None \<Rightarrow> Inr (default_values, default_power)
                 | Some vs \<Rightarrow>
                     if length vs = num_bins
                     then (case json_cal_pwr cal_data of
                             None \<Rightarrow> Inr (vs, default_power)
                           | Some p \<Rightarrow> Inr (vs, p))
                     else Inr (default_values, default_power))))"

text \<open>
  \<^verbatim>\<open>calibrate\<close>: the calibration task is started and joined for at most 30
  seconds, then the document is read. A missing file and a missing key raise.
\<close>

definition calibrate :: "externals \<Rightarrow> daemon \<Rightarrow> outcome" where
  "calibrate X s =
     (case calibration_file X of
        None \<Rightarrow> Raised FileNotFoundError s
      | Some cal_data \<Rightarrow>
          (case json_cal_values cal_data of
             None \<Rightarrow> Raised KeyError s
           | Some vs \<Rightarrow>
               (let s1 = s\<lparr>cal_values := vs\<rparr>
                in case json_cal_pwr cal_data of
                     None \<Rightarrow> Raised KeyError s1
                   | Some p \<Rightarrow>
                       (let s2 = s1\<lparr>cal_power := p\<rparr>;
                            s3 = radio_put (''cal_pwr'', PNum (cal_power s2)) s2;
                            s4 = radio_put (''cal_values'', PList (cal_values s3)) s3
                        in Returned (log_message CalibrationDone s4)))))"

text \<open>\<^verbatim>\<open>str.endswith\<close>.\<close>

definition endswith :: "string \<Rightarrow> string \<Rightarrow> bool" where
  "endswith s suf = (length suf \<le> length s \<and> drop (length s - length suf) s = suf)"

definition start_recording :: "string option \<Rightarrow> daemon \<Rightarrow> daemon" where
  "start_recording name s =
     (if radio_save_raw_task s = None \<and> radio_save_spec_task s = None
      then
        (if name = None \<or> \<not> endswith (the name) ''.rad''
         then s\<lparr>radio_save_raw_task :=
                  Some \<lparr>task_kind = SaveRaw, task_samp = radio_sample_frequency s,
                        task_name = name, started = True, terminated = False\<rparr>\<rparr>
         else
           (let name' = (if name = Some ''*.rad'' then None else name)
            in s\<lparr>radio_save_spec_task :=
                   Some \<lparr>task_kind = SaveSpecRad, task_samp = radio_sample_frequency s,
                         task_name = name', started = False, terminated = False\<rparr>\<rparr>))
      else log_message AlreadyRecording s)"

definition stop_recording :: "daemon \<Rightarrow> daemon" where
  "stop_recording s =
     (let s1 = (if radio_save_raw_task s \<noteq> None then s\<lparr>radio_save_raw_task := None\<rparr> else s)
      in if radio_save_spec_task s1 \<noteq> None then s1\<lparr>radio_save_spec_task := None\<rparr> else s1)"

definition set_freq :: "real \<Rightarrow> daemon \<Rightarrow> daemon" where
  "set_freq frequency s =
     (let s1 = s\<lparr>radio_center_frequency := frequency\<rparr>
      in radio_put (''freq'', PNum (radio_center_frequency s1)) s1)"

definition set_samp_rate :: "real \<Rightarrow> daemon \<Rightarrow> daemon" where
  "set_samp_rate samp_rate s =
     (let s1 = (case radio_save_raw_task s of
                  None \<Rightarrow> s
                | Some t \<Rightarrow> s\<lparr>radio_save_raw_task := Some (t\<lparr>terminated := True\<rparr>)\<rparr>);
          s2 = s1\<lparr>radio_sample_frequency := samp_rate\<rparr>
      in radio_put (''samp_rate'', PNum (radio_sample_frequency s2)) s2)"

text \<open>
  \<^verbatim>\<open>quit\<close> assigns \<^verbatim>\<open>keep_running = False\<close> to a variable of its own and
  puts that value on the radio queue; nothing of it is returned to the caller.
\<close>

definition quit :: "daemon \<Rightarrow> daemon" where
  "quit s = (let keep_running = False in radio_put (''is_running'', PBool keep_running) s)"

section \<open>Strings and times of the command interpreter\<close>

text \<open>
  The string methods the interpreter calls, on ASCII text: \<^verbatim>\<open>str.lower\<close>,
  \<^verbatim>\<open>str.strip\<close>, \<^verbatim>\<open>str.split(sep)\<close> with a one-character separator,
  \<^verbatim>\<open>str.isnumeric\<close> and \<^verbatim>\<open>str.replace\<close>.
\<close>

definition lower_char :: "char \<Rightarrow> char" where
  "lower_char c =
     (case map_of (zip ''ABCDEFGHIJKLMNOPQRSTUVWXYZ'' ''abcdefghijklmnopqrstuvwxyz'') c of
        Some l \<Rightarrow> l
      | None \<Rightarrow> c)"

definition lower :: "string \<Rightarrow> string" where
  "lower s = map lower_char s"

definition is_space :: "char \<Rightarrow> bool" where
  "is_space c = (let n = (of_char c :: nat) in (9 \<le> n \<and> n \<le> 13) \<or> (28 \<le> n \<and> n \<le> 32))"

definition strip :: "string \<Rightarrow> string" where
  "strip s = rev (dropWhile is_space (rev (dropWhile is_space s)))"

fun split_on :: "char \<Rightarrow> string \<Rightarrow> string list" where
  "split_on d [] = [[]]"
| "split_on d (c # cs) =
     (if c = d then [] # split_on d cs
      else (case split_on d cs of
              [] \<Rightarrow> [[c]]
            | w # ws \<Rightarrow> (c # w) # ws))"

definition is_digit :: "char \<Rightarrow> bool" where
  "is_digit c = (let n = (of_char c :: nat) in 48 \<le> n \<and> n \<le> 57)"

definition isnumeric :: "string \<Rightarrow> bool" where
  "isnumeric s = (s \<noteq> [] \<and> list_all is_digit s)"

function replace :: "string \<Rightarrow> string \<Rightarrow> string \<Rightarrow> string" where
  "replace old new [] = []"
| "replace old new (c # cs) =
     (if old \<noteq> [] \<and> take (length old) (c # cs) = old
      then new @ replace old new (drop (length old) (c # cs))
      else c # replace old new cs)"
  by pat_completeness auto
termination
  by (relation "measure (\<lambda>(old, new, s). length s)") auto

text \<open>
  \<^verbatim>\<open>datetime.strptime(s, "%H:%M:%S")\<close>: three fields of one or two digits
  between colons, the hour at most 23, minute and second at most 59, and nothing else
  in the string; anything else is a ValueError (\<^verbatim>\<open>None\<close>). The date is
  1 January 1900, which is 2208988800 seconds before the epoch.
\<close>

definition digit_val :: "char \<Rightarrow> nat" where
  "digit_val c = of_char c - 48"

definition two_digits :: "string \<Rightarrow> nat option" where
  "two_digits f =
     (case f of
        [a] \<Rightarrow> if is_digit a then Some (digit_val a) else None
      | [a, b] \<Rightarrow> if is_digit a \<and> is_digit b then Some (10 * digit_val a + digit_val b) else None
      | _ \<Rightarrow> None)"

definition strptime_HMS :: "string \<Rightarrow> real option" where
  "strptime_HMS s =
     (case split_on CHR '':'' s of
        [h, m, sec] \<Rightarrow>
          (case (two_digits h, two_digits m, two_digits sec) of
             (Some H, Some M, Some S) \<Rightarrow>
               if H \<le> 23 \<and> M \<le> 59 \<and> S \<le> 59
               then Some (real (3600 * H + 60 * M + S) - 2208988800)
               else None
           | _ \<Rightarrow> None)
      | _ \<Rightarrow> None)"

text \<open>\<^verbatim>\<open>while time_val < now: time_val += timedelta(days=1)\<close>\<close>

function next_day_until :: "real \<Rightarrow> real \<Rightarrow> real" where
  "next_day_until now time_val =
     (if time_val < now then next_day_until now (time_val + 86400) else time_val)"
  by pat_completeness auto
termination
  by (relation "measure (\<lambda>(now, time_val). nat \<lceil>now - time_val\<rceil>)") (auto, linarith)

section \<open>The command interpreter\<close>

text \<open>
  \<^verbatim>\<open>float(command_parts[i])\<close>: IndexError when the token is missing,
  ValueError when it is not a number, else the continuation runs on the value.
\<close>

definition float_arg ::
  "externals \<Rightarrow> string list \<Rightarrow> nat \<Rightarrow> daemon \<Rightarrow> (real \<Rightarrow> outcome) \<Rightarrow> outcome" where
  "float_arg X command_parts i s k =
     (if i < length command_parts
      then (case to_float X (command_parts ! i) of
              None \<Rightarrow> Raised ValueError s
            | Some v \<Rightarrow> k v)
      else Raised IndexError s)"

text \<open>
  The body of the \<^verbatim>\<open>try\<close> in \<^verbatim>\<open>srt_daemon_main\<close> for one command taken from
  the command queue.
\<close>

definition srt_daemon_main_body :: "externals \<Rightarrow> string \<Rightarrow> daemon \<Rightarrow> outcome" where
  "srt_daemon_main_body X command0 s0 =
     (let s = (log_message (RunningCommand command0) (s0\<lparr>current_queue_item := ''None''\<rparr>))
                \<lparr>current_queue_item := command0\<rparr>
      in if length command0 < 2 \<or> hd command0 = CHR ''*'' then Returned s
         else
           (let command = (if hd command0 = CHR '':'' then strip (tl command0) else command0);
                command_parts = split_on CHR '' '' command;
                command_name = lower (hd command_parts)
            in if hd command_parts \<in> dom (ephemeris_locations s)
               then (if last command_parts = ''n'' then n_point_scan X (hd command_parts) s
                     else if last command_parts = ''b'' then beam_switch X (hd command_parts) s
                     else point_at_object X (hd command_parts) s)
               else if command_name = ''stow'' then stow X s
               else if command_name = ''cal''
                 then point_at_azel X (fst (cal_location s)) (snd (cal_location s)) s
               else if command_name = ''calibrate'' then calibrate X s
               else if command_name = ''quit'' then Returned (quit s)
               else if command_name = ''record''
                 then Returned
                        (start_recording
                           (if length command_parts \<le> 1 then None else Some (command_parts ! 1)) s)
               else if command_name = ''roff'' then Returned (stop_recording s)
               else if command_name = ''freq''
                 then float_arg X command_parts 1 s (\<lambda>f. Returned (set_freq (f * 10 ^ 6) s))
               else if command_name = ''samp''
                 then float_arg X command_parts 1 s (\<lambda>f. Returned (set_samp_rate (f * 10 ^ 6) s))
               else if command_name = ''azel''
                 then float_arg X command_parts 1 s
                        (\<lambda>az. float_arg X command_parts 2 s (\<lambda>el. point_at_azel X az el s))
               else if command_name = ''offset''
                 then float_arg X command_parts 1 s
                        (\<lambda>az. float_arg X command_parts 2 s (\<lambda>el. point_at_offset X az el s))
               else if isnumeric command_name
                 then (case to_float X command_name of
                         None \<Rightarrow> Raised ValueError s
                       | Some d \<Rightarrow> sleep d s)
               else if command_name = ''wait''
                 then float_arg X command_parts 1 s (\<lambda>d. sleep d s)
               else if hd (split_on CHR '':'' command_name) = ''lst''
                 then (let time_string = replace ''LST:'' [] command_name
                       in case strptime_HMS time_string of
                            None \<Rightarrow> Raised ValueError s
                          | Some t \<Rightarrow>
                              (let time_val = next_day_until (time_now X) t;
                                   time_delta = time_val - time_now X
                               in sleep time_delta s))
               else if length (split_on CHR '':'' command_name) = 5
                 then (case strptime_YjHMS X command_name of
                         None \<Rightarrow> Raised ValueError s
                       | Some time_val \<Rightarrow> sleep (time_val - time_now X) s)
               else Returned (log_message (CommandNotIdentified command) s)))"

text \<open>One turn of the loop: the body and its three \<^verbatim>\<open>except\<close> clauses.\<close>

definition srt_daemon_main_step :: "externals \<Rightarrow> string \<Rightarrow> daemon \<Rightarrow> outcome" where
  "srt_daemon_main_step X command s =
     (case srt_daemon_main_body X command s of
        Raised e t \<Rightarrow>
          if e = IndexError \<or> e = ValueError \<or> e = ConnectionRefusedError
          then Returned (log_message (ExnText e) t)
          else Raised e t
      | r \<Rightarrow> r)"

text \<open>What follows the loop: return to stow, end the recordings, stop the radio script.\<close>

definition srt_daemon_main_end :: "externals \<Rightarrow> daemon \<Rightarrow> outcome" where
  "srt_daemon_main_end X s =
     and_then (stow X s)
       (\<lambda>t. let t1 = stop_recording t
            in Returned (if radio_autostart t1 then t1\<lparr>radio_process_terminated := True\<rparr> else t1))"

text \<open>
  \<^verbatim>\<open>while keep_running:\<close> and what follows it. The list holds the lines that
  will arrive on the command queue, in order; on an empty queue \<^verbatim>\<open>get()\<close> waits
  for ever. No statement of the loop assigns \<^verbatim>\<open>keep_running\<close>, so each turn
  passes it on as it is.
\<close>

fun srt_daemon_main_loop :: "externals \<Rightarrow> bool \<Rightarrow> string list \<Rightarrow> daemon \<Rightarrow> outcome" where
  "srt_daemon_main_loop X keep_running [] s =
     (if keep_running then Blocked (s\<lparr>current_queue_item := ''None''\<rparr>)
      else srt_daemon_main_end X s)"
| "srt_daemon_main_loop X keep_running (command # rest) s =
     (if keep_running
      then (case srt_daemon_main_step X command s of
              Returned t \<Rightarrow> srt_daemon_main_loop X keep_running rest t
            | r \<Rightarrow> r)
      else srt_daemon_main_end X s)"

text \<open>
  \<^verbatim>\<open>srt_daemon_main\<close> from its statement \<^verbatim>\<open>keep_running = True\<close> on.
  What comes before, the start of the five threads and of the radio script and the
  initial settings put on the radio queue, is left out.
\<close>

definition srt_daemon_main :: "externals \<Rightarrow> string list \<Rightarrow> daemon \<Rightarrow> outcome" where
  "srt_daemon_main X commands s = srt_daemon_main_loop X True commands s"

section \<open>A station for concrete runs\<close>

text \<open>
  A concrete set of collaborators and a concrete daemon state, used where a result is
  checked on an input. The travel bounds are azimuth 0 to 360 and elevation 0 to 90,
  the arrival tolerance is a hundredth of a degree, \<^verbatim>\<open>float\<close> reads unsigned
  decimal integers only, no calibration document is on disk, and the clock stands at
  23:59:59 UTC of 1 January 1970.
\<close>

definition example_float :: "string \<Rightarrow> real option" where
  "example_float s =
     (if isnumeric s then Some (real (foldl (\<lambda>a c. 10 * a + digit_val c) 0 s)) else None)"

definition example_externals :: externals where
  "example_externals =
     \<lparr>angles_within_bounds = (\<lambda>az el. 0 \<le> az \<and> az \<le> 360 \<and> 0 \<le> el \<and> el \<le> 90),
      azel_within_range = (\<lambda>p q. \<bar>fst p - fst q\<bar> \<le> 1 / 100 \<and> \<bar>snd p - snd q\<bar> \<le> 1 / 100),
      np_cos = (\<lambda>x. 1 - x * x / 2),
      np_pi = 355 / 113,
      to_float = example_float,
      strptime_YjHMS = (\<lambda>s. None),
      time_now = 86399,
      calibration_file = None\<rparr>"

definition example_daemon :: daemon where
  "example_daemon =
     \<lparr>stow_location = (180, 10), cal_location = (200, 20), beamwidth = 6,
      temp_sys = 100, temp_cal = 200, radio_num_bins = 4,
      radio_center_frequency = 1420, radio_sample_frequency = 2, radio_autostart = False,
      cal_values = [1, 1, 1, 1], cal_power = 1 / 300,
      ephemeris_locations = [''Sun'' \<mapsto> (100, 40)],
      ephemeris_cmd_location = None,
      rotor_location = (180, 10), rotor_destination = (180, 10), rotor_offsets = (0, 0),
      rotor_cmd_location = (180, 10),
      radio_queue = [], radio_save_raw_task = None, radio_save_spec_task = None,
      radio_process_terminated = False, current_queue_item = ''None'',
      command_error_logs = [], slept = [], rotor_readings = []\<rparr>"

text \<open>
  The same station with an object on the edge of the bounds, azimuth 0 and elevation
  0, the mount standing there, and the readings with which the mount follows the
  cells of a scan that lie within the bounds.
\<close>

definition edge_daemon :: daemon where
  "edge_daemon =
     example_daemon
       \<lparr>ephemeris_locations := [''Sun'' \<mapsto> (0, 0)],
        rotor_location := (0, 0),
        rotor_readings := [(3, 0), (6, 0), (0, 3), (3, 3), (601 / 100, 3), (0, 6),
                           (302 / 100, 6), (603 / 100, 6)]\<rparr>"

definition example_raw_task :: task where
  "example_raw_task =
     \<lparr>task_kind = SaveRaw, task_samp = 2, task_name = Some ''run1'',
      started = True, terminated = False\<rparr>"

text \<open>An outcome other than a raise.\<close>

definition not_raised :: "outcome \<Rightarrow> bool" where
  "not_raised r = (case r of Raised e s \<Rightarrow> False | _ \<Rightarrow> True)"

text \<open>An outcome other than a raise that the command loop does not catch.\<close>

definition only_caught :: "outcome \<Rightarrow> bool" where
  "only_caught r =
     (case r of
        Raised e s \<Rightarrow> e = IndexError \<or> e = ValueError \<or> e = ConnectionRefusedError
      | _ \<Rightarrow> True)"

text \<open>Such an outcome, or the outcome of a sleep called in the state \<^verbatim>\<open>s\<close>.\<close>

definition only_caught_or_sleep :: "daemon \<Rightarrow> outcome \<Rightarrow> bool" where
  "only_caught_or_sleep s r = (only_caught r \<or> (\<exists>d. r = sleep d s))"

section \<open>The scan patterns in the words of the specification\<close>

text \<open>
  The specification's n-point scan, to be compared with \<^verbatim>\<open>n_point_scan\<close>: a
  five by five grid with indices \<^verbatim>\<open>i\<close> and \<^verbatim>\<open>j\<close> from -2 to 2, row by row,
  the elevation offset \<^verbatim>\<open>i * beamwidth / 2\<close> and the azimuth offset
  \<^verbatim>\<open>j * beamwidth / 2 / cos(radians(elevation + elOffset))\<close>; each cell is handed
  to the offset-pointing logic from the object's position and then held for 5 time
  units; at the end the offset is zero again and the object is tracked by name.
\<close>

definition spec_grid_cells :: "externals \<Rightarrow> real \<Rightarrow> real \<Rightarrow> azel list" where
  "spec_grid_cells X bw elevation =
     concat
       (map (\<lambda>i. map (\<lambda>j. (real_of_int j * bw / 2
                               / np_cos X ((elevation + real_of_int i * bw / 2) * np_pi X / 180),
                             real_of_int i * bw / 2))
                     [- 2..2])
            [- 2..2])"

definition visit_cell :: "externals \<Rightarrow> azel \<Rightarrow> azel \<Rightarrow> daemon \<Rightarrow> outcome" where
  "visit_cell X dest cell s =
     and_then (point_at_offset X (fst cell) (snd cell) (s\<lparr>rotor_destination := dest\<rparr>))
       (sleep 5)"

definition spec_n_point_scan :: "externals \<Rightarrow> string \<Rightarrow> azel \<Rightarrow> daemon \<Rightarrow> outcome" where
  "spec_n_point_scan X object_id dest s =
     and_then
       (for_each (spec_grid_cells X (beamwidth s) (snd dest)) (visit_cell X dest)
          (radio_put (''soutrack'', PStr object_id) (s\<lparr>ephemeris_cmd_location := None\<rparr>)))
       (\<lambda>t. Returned (t\<lparr>rotor_offsets := (0, 0), ephemeris_cmd_location := Some object_id\<rparr>))"

text \<open>
  The specification's beam switch, to be compared with \<^verbatim>\<open>beam_switch\<close>: three
  legs with the azimuth offsets -1, 0 and +1 times \<^verbatim>\<open>beamwidth / cos(radians(elevation))\<close>
  and no elevation offset, each announced on the radio queue by its number 1, 2, 3
  and then visited like a cell of the scan; at the end the offset is zero again, the
  label 0 is put, and the object is tracked by name.
\<close>

definition spec_beam_switch_legs :: "externals \<Rightarrow> real \<Rightarrow> real \<Rightarrow> azel list" where
  "spec_beam_switch_legs X bw elevation =
     map (\<lambda>k. (real_of_int k * bw / np_cos X (elevation * np_pi X / 180), 0)) [- 1..1]"

definition visit_leg :: "externals \<Rightarrow> azel \<Rightarrow> int \<times> azel \<Rightarrow> daemon \<Rightarrow> outcome" where
  "visit_leg X dest leg s =
     visit_cell X dest (snd leg) (radio_put (''beam_switch'', PInt (fst leg)) s)"

definition spec_beam_switch :: "externals \<Rightarrow> string \<Rightarrow> azel \<Rightarrow> daemon \<Rightarrow> outcome" where
  "spec_beam_switch X object_id dest s =
     and_then
       (for_each (zip [1, 2, 3] (spec_beam_switch_legs X (beamwidth s) (snd dest)))
          (visit_leg X dest)
          (radio_put (''soutrack'', PStr object_id) (s\<lparr>ephemeris_cmd_location := None\<rparr>)))
       (\<lambda>t. Returned
          ((radio_put (''beam_switch'', PInt 0) (t\<lparr>rotor_offsets := (0, 0)\<rparr>))
             \<lparr>ephemeris_cmd_location := Some object_id\<rparr>))"

text \<open>The values put on the radio queue under the name \<^verbatim>\<open>beam_switch\<close>, in order.\<close>

definition beam_switch_labels :: "(string \<times> pval) list \<Rightarrow> pval list" where
  "beam_switch_labels q = map snd (filter (\<lambda>e. fst e = ''beam_switch'') q)"

text \<open>The number of dwells, the sleeps of 5 time units, among the sleeps so far.\<close>

definition dwells :: "daemon \<Rightarrow> nat" where
  "dwells s = length (filter (\<lambda>d. d = 5) (slept s))"

text \<open>
  What a turn of a scan does with a cell, from the state \<^verbatim>\<open>v\<close> before the turn
  to the state \<^verbatim>\<open>u\<close> after it: it dwells once; a cell whose position, the
  object's position plus the cell's offset, lies within the bounds is commanded and
  reached; a cell outside the bounds is logged, and the commanded position and the
  offset stay as they were.
\<close>

definition cell_turn :: "externals \<Rightarrow> azel \<Rightarrow> azel \<Rightarrow> daemon \<Rightarrow> daemon \<Rightarrow> bool" where
  "cell_turn X dest cell v u =
     (dwells u = Suc (dwells v)
      \<and> (if within_bounds X (add_azel dest cell)
         then rotor_cmd_location u = add_azel dest cell
              \<and> rotor_offsets u = cell
              \<and> azel_within_range X (rotor_location u) (rotor_cmd_location u)
              \<and> command_error_logs u = command_error_logs v
         else rotor_cmd_location u = rotor_cmd_location v
              \<and> rotor_offsets u = rotor_offsets v
              \<and> command_error_logs u = command_error_logs v @ [OffsetOutOfBounds cell]))"

text \<open>
  An operation completes when from every state some readings of the rotor thread let
  it return, whatever readings follow them.
\<close>

abbreviation completes :: "(daemon \<Rightarrow> outcome) \<Rightarrow> bool" where
  "completes f \<equiv>
     \<forall>s. \<exists>pre u. \<forall>rs. f (s\<lparr>rotor_readings := pre @ rs\<rparr>) = Returned (u\<lparr>rotor_readings := rs\<rparr>)"

section \<open>Facts about the arrival wait\<close>

lemma poll_arrival_cases:
  "(\<exists>t. poll_arrival X rs s = Returned t) \<or> (\<exists>t. poll_arrival X rs s = Blocked t)"
  by (induction rs arbitrary: s) auto

lemma poll_arrival_keeps:
  "stow_location (state_of (poll_arrival X rs s)) = stow_location s
   \<and> rotor_destination (state_of (poll_arrival X rs s)) = rotor_destination s
   \<and> rotor_offsets (state_of (poll_arrival X rs s)) = rotor_offsets s
   \<and> rotor_cmd_location (state_of (poll_arrival X rs s)) = rotor_cmd_location s
   \<and> ephemeris_cmd_location (state_of (poll_arrival X rs s)) = ephemeris_cmd_location s
   \<and> ephemeris_locations (state_of (poll_arrival X rs s)) = ephemeris_locations s
   \<and> radio_queue (state_of (poll_arrival X rs s)) = radio_queue s
   \<and> command_error_logs (state_of (poll_arrival X rs s)) = command_error_logs s
   \<and> radio_save_raw_task (state_of (poll_arrival X rs s)) = radio_save_raw_task s
   \<and> radio_save_spec_task (state_of (poll_arrival X rs s)) = radio_save_spec_task s
   \<and> beamwidth (state_of (poll_arrival X rs s)) = beamwidth s"
  by (induction rs arbitrary: s) auto

lemma not_raised_simps [simp]:
  "not_raised (Returned s)" "not_raised (Blocked s)" "\<not> not_raised (Raised e s)"
  by (simp_all add: not_raised_def)

lemma and_then_Returned:
  "and_then r f = Returned t \<longleftrightarrow> (\<exists>u. r = Returned u \<and> f u = Returned t)"
  by (cases r) simp_all

lemma state_of_and_then:
  "state_of (and_then r f) = (case r of Returned u \<Rightarrow> state_of (f u) | _ \<Rightarrow> state_of r)"
  by (cases r) simp_all

lemma not_raised_and_then:
  "not_raised r \<Longrightarrow> (\<And>u. r = Returned u \<Longrightarrow> not_raised (f u)) \<Longrightarrow> not_raised (and_then r f)"
  by (cases r) simp_all

lemma for_each_invariant:
  assumes step: "\<And>x s. P s \<Longrightarrow> P (state_of (f x s))"
    and init: "P s"
  shows "P (state_of (for_each xs f s))"
  using init
proof (induction xs arbitrary: s)
  case Nil
  then show ?case by simp
next
  case (Cons x xs)
  have Px: "P (state_of (f x s))" using step Cons.prems by blast
  show ?case
  proof (cases "f x s")
    case (Returned u)
    then show ?thesis using Px Cons.IH [of u] by simp
  next
    case (Blocked u)
    then show ?thesis using Px by simp
  next
    case (Raised e u)
    then show ?thesis using Px by simp
  qed
qed

lemma for_each_not_raised:
  assumes step: "\<And>x s. P s \<Longrightarrow> not_raised (f x s) \<and> P (state_of (f x s))"
    and init: "P s"
  shows "not_raised (for_each xs f s)"
  using init
proof (induction xs arbitrary: s)
  case Nil
  then show ?case by simp
next
  case (Cons x xs)
  have Px: "not_raised (f x s)" "P (state_of (f x s))" using step Cons.prems by blast+
  show ?case
  proof (cases "f x s")
    case (Returned u)
    then show ?thesis using Px Cons.IH [of u] by simp
  next
    case (Blocked u)
    then show ?thesis by simp
  next
    case (Raised e u)
    then show ?thesis using Px by simp
  qed
qed

lemma for_each_cong_invariant:
  assumes step: "\<And>x s. P s \<Longrightarrow> f x s = g x s \<and> P (state_of (f x s))"
    and init: "P s"
  shows "for_each xs f s = for_each xs g s"
  using init
proof (induction xs arbitrary: s)
  case Nil
  then show ?case by simp
next
  case (Cons x xs)
  have eq: "f x s = g x s" and Px: "P (state_of (f x s))" using step Cons.prems by blast+
  show ?case
  proof (cases "f x s")
    case (Returned u)
    then show ?thesis using eq Px Cons.IH [of u] by simp
  next
    case (Blocked u)
    then show ?thesis using eq by simp
  next
    case (Raised e u)
    then show ?thesis using eq by simp
  qed
qed

lemma for_each_map: "for_each (map h xs) f = for_each xs (\<lambda>x. f (h x))"
proof (induction xs)
  case Nil
  show ?case by (rule ext) simp
next
  case (Cons x xs)
  show ?case by (rule ext) (simp add: Cons.IH)
qed

lemma for_each_Returned_count:
  assumes step: "\<And>x s t. f x s = Returned t \<Longrightarrow> m t = Suc (m s)"
  shows "for_each xs f s = Returned t \<Longrightarrow> m t = m s + length xs"
proof (induction xs arbitrary: s)
  case Nil
  then show ?case by simp
next
  case (Cons x xs)
  from Cons.prems obtain u where u: "f x s = Returned u" and rest: "for_each xs f u = Returned t"
    by (auto simp: and_then_Returned)
  show ?case using step [OF u] Cons.IH [OF rest] by simp
qed

lemma wait_for_arrival_not_raised: "not_raised (wait_for_arrival X s)"
  using poll_arrival_cases [of X "rotor_readings s" s] by (auto simp: wait_for_arrival_def)

lemma wait_for_arrival_keeps:
  "stow_location (state_of (wait_for_arrival X s)) = stow_location s
   \<and> rotor_destination (state_of (wait_for_arrival X s)) = rotor_destination s
   \<and> rotor_offsets (state_of (wait_for_arrival X s)) = rotor_offsets s
   \<and> rotor_cmd_location (state_of (wait_for_arrival X s)) = rotor_cmd_location s
   \<and> ephemeris_cmd_location (state_of (wait_for_arrival X s)) = ephemeris_cmd_location s
   \<and> ephemeris_locations (state_of (wait_for_arrival X s)) = ephemeris_locations s
   \<and> radio_queue (state_of (wait_for_arrival X s)) = radio_queue s
   \<and> command_error_logs (state_of (wait_for_arrival X s)) = command_error_logs s
   \<and> radio_save_raw_task (state_of (wait_for_arrival X s)) = radio_save_raw_task s
   \<and> radio_save_spec_task (state_of (wait_for_arrival X s)) = radio_save_spec_task s
   \<and> beamwidth (state_of (wait_for_arrival X s)) = beamwidth s"
  unfolding wait_for_arrival_def by (rule poll_arrival_keeps)

lemma point_at_offset_not_raised: "not_raised (point_at_offset X a b s)"
  by (simp add: point_at_offset_def Let_def wait_for_arrival_not_raised)

lemma point_at_offset_accepted:
  "within_bounds X (add_azel (rotor_destination s) (a, b)) \<Longrightarrow>
   rotor_cmd_location (state_of (point_at_offset X a b s)) = add_azel (rotor_destination s) (a, b)
   \<and> rotor_offsets (state_of (point_at_offset X a b s)) = (a, b)
   \<and> rotor_destination (state_of (point_at_offset X a b s)) = rotor_destination s
   \<and> ephemeris_cmd_location (state_of (point_at_offset X a b s)) = ephemeris_cmd_location s
   \<and> command_error_logs (state_of (point_at_offset X a b s)) = command_error_logs s"
  by (simp add: point_at_offset_def Let_def wait_for_arrival_keeps)

lemma point_at_offset_rejected:
  "\<not> within_bounds X (add_azel (rotor_destination s) (a, b)) \<Longrightarrow>
   point_at_offset X a b s = Returned (log_message (OffsetOutOfBounds (a, b)) s)"
  by (simp add: point_at_offset_def Let_def)

lemma point_at_offset_frame:
  "ephemeris_locations (state_of (point_at_offset X a b s)) = ephemeris_locations s
   \<and> beamwidth (state_of (point_at_offset X a b s)) = beamwidth s
   \<and> radio_queue (state_of (point_at_offset X a b s)) = radio_queue s
   \<and> ephemeris_cmd_location (state_of (point_at_offset X a b s)) = ephemeris_cmd_location s
   \<and> rotor_destination (state_of (point_at_offset X a b s)) = rotor_destination s
   \<and> stow_location (state_of (point_at_offset X a b s)) = stow_location s"
  by (simp add: point_at_offset_def Let_def wait_for_arrival_keeps log_message_def)

lemma point_at_offset_cmd:
  "rotor_cmd_location (state_of (point_at_offset X a b s)) = rotor_cmd_location s
   \<or> within_bounds X (rotor_cmd_location (state_of (point_at_offset X a b s)))"
  by (cases "within_bounds X (add_azel (rotor_destination s) (a, b))")
     (simp_all add: point_at_offset_accepted point_at_offset_rejected log_message_def)

lemma stow_fields:
  "rotor_cmd_location (state_of (stow X s)) = stow_location s
   \<and> rotor_destination (state_of (stow X s)) = stow_location s
   \<and> rotor_offsets (state_of (stow X s)) = (0, 0)
   \<and> ephemeris_cmd_location (state_of (stow X s)) = None"
  by (simp add: stow_def wait_for_arrival_def radio_put_def Let_def poll_arrival_keeps)

lemma stop_recording_fields:
  "radio_save_raw_task (stop_recording s) = None
   \<and> radio_save_spec_task (stop_recording s) = None
   \<and> rotor_cmd_location (stop_recording s) = rotor_cmd_location s"
  by (simp add: stop_recording_def Let_def)

lemma for_each_Returned_invariant:
  assumes step: "\<And>x s. P s \<Longrightarrow> \<exists>t. f x s = Returned t \<and> P t"
    and init: "P s"
  shows "\<exists>t. for_each xs f s = Returned t \<and> P t"
  using init
proof (induction xs arbitrary: s)
  case Nil
  then show ?case by simp
next
  case (Cons x xs)
  from step [OF Cons.prems] obtain u where u: "f x s = Returned u" "P u" by blast
  show ?case using u Cons.IH [of u] by simp
qed

lemma and_then_sleep_5:
  "and_then r (sleep 5) = (case r of Returned u \<Rightarrow> Returned (u\<lparr>slept := slept u @ [5]\<rparr>) | _ \<Rightarrow> r)"
  by (cases r) (simp_all add: sleep_def sleep_limit_def)

lemma and_then_sleep_5_fields:
  "rotor_cmd_location (state_of (and_then r (sleep 5))) = rotor_cmd_location (state_of r)
   \<and> rotor_destination (state_of (and_then r (sleep 5))) = rotor_destination (state_of r)
   \<and> rotor_offsets (state_of (and_then r (sleep 5))) = rotor_offsets (state_of r)
   \<and> ephemeris_locations (state_of (and_then r (sleep 5))) = ephemeris_locations (state_of r)
   \<and> ephemeris_cmd_location (state_of (and_then r (sleep 5))) = ephemeris_cmd_location (state_of r)
   \<and> beamwidth (state_of (and_then r (sleep 5))) = beamwidth (state_of r)
   \<and> radio_queue (state_of (and_then r (sleep 5))) = radio_queue (state_of r)
   \<and> not_raised (and_then r (sleep 5)) = not_raised r"
  by (cases r) (simp_all add: sleep_def sleep_limit_def)

lemma point_at_object_accepted:
  "ephemeris_locations s obj = Some p \<Longrightarrow> within_bounds X p \<Longrightarrow>
   rotor_cmd_location (state_of (point_at_object X obj s)) = p
   \<and> rotor_destination (state_of (point_at_object X obj s)) = p
   \<and> ephemeris_cmd_location (state_of (point_at_object X obj s)) = Some obj
   \<and> not_raised (point_at_object X obj s)"
  by (simp add: point_at_object_def radio_put_def Let_def wait_for_arrival_keeps
        wait_for_arrival_not_raised)

lemma point_at_object_rejected:
  "ephemeris_locations s obj = Some p \<Longrightarrow> \<not> within_bounds X p \<Longrightarrow>
   point_at_object X obj s
     = Returned (s\<lparr>rotor_offsets := (0, 0),
                   radio_queue := radio_queue s @ [(''soutrack'', PStr obj)],
                   command_error_logs := command_error_logs s @ [ObjectNotInBounds obj],
                   ephemeris_cmd_location := None\<rparr>)"
  by (simp add: point_at_object_def radio_put_def log_message_def Let_def)

lemma point_at_azel_accepted:
  "within_bounds X (az, el) \<Longrightarrow>
   rotor_cmd_location (state_of (point_at_azel X az el s)) = (az, el)
   \<and> rotor_destination (state_of (point_at_azel X az el s)) = (az, el)
   \<and> ephemeris_cmd_location (state_of (point_at_azel X az el s)) = None"
  by (simp add: point_at_azel_def radio_put_def Let_def wait_for_arrival_keeps)

lemma point_at_azel_rejected:
  "\<not> within_bounds X (az, el) \<Longrightarrow>
   point_at_azel X az el s
     = Returned (s\<lparr>ephemeris_cmd_location := None, rotor_offsets := (0, 0),
                   radio_queue := radio_queue s @ [(''soutrack'', PAzel az el)],
                   command_error_logs := command_error_logs s @ [AzelNotInBounds (az, el)]\<rparr>)"
  by (simp add: point_at_azel_def radio_put_def log_message_def Let_def)



lemma update_ephemeris_accepted:
  "ephemeris_cmd_location s = Some obj \<Longrightarrow> table obj = Some p \<Longrightarrow>
   within_bounds X p \<Longrightarrow> within_bounds X (add_azel p (rotor_offsets s)) \<Longrightarrow>
   update_ephemeris_location_body X table s
     = Returned (s\<lparr>ephemeris_locations := table, rotor_destination := p,
                   rotor_cmd_location := add_azel p (rotor_offsets s)\<rparr>)"
  by (simp add: update_ephemeris_location_body_def Let_def)

lemma update_ephemeris_rejected:
  "ephemeris_cmd_location s = Some obj \<Longrightarrow> table obj = Some p \<Longrightarrow>
   \<not> (within_bounds X p \<and> within_bounds X (add_azel p (rotor_offsets s))) \<Longrightarrow>
   update_ephemeris_location_body X table s
     = Returned (s\<lparr>ephemeris_locations := table,
                   command_error_logs := command_error_logs s @ [MovedOutOfBounds obj],
                   ephemeris_cmd_location := None\<rparr>)"
  by (auto simp add: update_ephemeris_location_body_def log_message_def Let_def)

lemma update_ephemeris_idle:
  "ephemeris_cmd_location s = None \<Longrightarrow>
   update_ephemeris_location_body X table s = Returned (s\<lparr>ephemeris_locations := table\<rparr>)"
  by (simp add: update_ephemeris_location_body_def Let_def)

lemma n_point_scan_body_frame:
  assumes "ephemeris_locations s obj = Some dest"
  shows "ephemeris_locations (state_of (n_point_scan_body X obj scan s)) = ephemeris_locations s
   \<and> beamwidth (state_of (n_point_scan_body X obj scan s)) = beamwidth s
   \<and> radio_queue (state_of (n_point_scan_body X obj scan s)) = radio_queue s
   \<and> not_raised (n_point_scan_body X obj scan s)
   \<and> (rotor_cmd_location (state_of (n_point_scan_body X obj scan s)) = rotor_cmd_location s
      \<or> within_bounds X (rotor_cmd_location (state_of (n_point_scan_body X obj scan s))))"
  using assms
    point_at_offset_cmd [of X "fst (n_point_scan_offsets X (beamwidth s) dest scan)"
      "snd (n_point_scan_offsets X (beamwidth s) dest scan)" "s\<lparr>rotor_destination := dest\<rparr>"]
  by (simp add: n_point_scan_body_def Let_def and_then_sleep_5_fields point_at_offset_frame
        point_at_offset_not_raised)

lemma n_point_scan_body_out_of_bounds:
  "ephemeris_locations s obj = Some dest \<Longrightarrow> \<not> within_bounds X dest \<Longrightarrow>
   n_point_scan_body X obj scan s = Returned (s\<lparr>slept := slept s @ [5]\<rparr>)"
  by (simp add: n_point_scan_body_def Let_def sleep_def sleep_limit_def)

lemma beam_switch_body_frame:
  "ephemeris_locations (state_of (beam_switch_body X dest j s)) = ephemeris_locations s
   \<and> beamwidth (state_of (beam_switch_body X dest j s)) = beamwidth s
   \<and> radio_queue (state_of (beam_switch_body X dest j s))
       = radio_queue s @ [(''beam_switch'', PInt (int j + 1))]
   \<and> not_raised (beam_switch_body X dest j s)
   \<and> (rotor_cmd_location (state_of (beam_switch_body X dest j s)) = rotor_cmd_location s
      \<or> within_bounds X (rotor_cmd_location (state_of (beam_switch_body X dest j s))))"
  using point_at_offset_cmd [of X "fst (beam_switch_offsets X (beamwidth s) dest j)"
      "snd (beam_switch_offsets X (beamwidth s) dest j)"
      "s\<lparr>radio_queue := radio_queue s @ [(''beam_switch'', PInt (int j + 1))],
         rotor_destination := dest\<rparr>"]
  by (simp add: beam_switch_body_def Let_def and_then_sleep_5_fields point_at_offset_frame
        point_at_offset_not_raised radio_put_def)

lemma beam_switch_body_out_of_bounds:
  "\<not> within_bounds X dest \<Longrightarrow>
   beam_switch_body X dest j s
     = Returned (s\<lparr>radio_queue := radio_queue s @ [(''beam_switch'', PInt (int j + 1))],
                   slept := slept s @ [5]\<rparr>)"
  by (simp add: beam_switch_body_def Let_def sleep_def sleep_limit_def radio_put_def)


lemma n_point_scan_body_cmd:
  "rotor_cmd_location (state_of (n_point_scan_body X obj scan s)) = rotor_cmd_location s
   \<or> within_bounds X (rotor_cmd_location (state_of (n_point_scan_body X obj scan s)))"
proof (cases "ephemeris_locations s obj")
  case None
  then show ?thesis by (simp add: n_point_scan_body_def)
next
  case (Some dest)
  then show ?thesis using n_point_scan_body_frame [of s obj dest X scan] by blast
qed

lemma n_point_scan_cmd:
  "rotor_cmd_location (state_of (n_point_scan X obj s)) = rotor_cmd_location s
   \<or> within_bounds X (rotor_cmd_location (state_of (n_point_scan X obj s)))"
proof -
  let ?s1 = "radio_put (''soutrack'', PStr obj) (s\<lparr>ephemeris_cmd_location := None\<rparr>)"
  let ?P = "\<lambda>t. rotor_cmd_location t = rotor_cmd_location s \<or> within_bounds X (rotor_cmd_location t)"
  let ?r = "for_each [0..<25] (n_point_scan_body X obj) ?s1"
  have "?P (state_of ?r)"
  proof (rule for_each_invariant [where P = ?P])
    fix x :: nat and u :: daemon assume "?P u"
    then show "?P (state_of (n_point_scan_body X obj x u))"
      using n_point_scan_body_cmd [of X obj x u] by auto
  next
    show "?P ?s1" by (simp add: radio_put_def)
  qed
  then show ?thesis
    by (cases ?r) (simp_all add: n_point_scan_def)
qed

lemma beam_switch_cmd:
  "rotor_cmd_location (state_of (beam_switch X obj s)) = rotor_cmd_location s
   \<or> within_bounds X (rotor_cmd_location (state_of (beam_switch X obj s)))"
proof (cases "ephemeris_locations s obj")
  case None
  then show ?thesis by (simp add: beam_switch_def radio_put_def Let_def)
next
  case (Some dest)
  let ?s1 = "radio_put (''soutrack'', PStr obj) (s\<lparr>ephemeris_cmd_location := None\<rparr>)"
  let ?P = "\<lambda>t. rotor_cmd_location t = rotor_cmd_location s \<or> within_bounds X (rotor_cmd_location t)"
  let ?r = "for_each [0..<3] (beam_switch_body X dest) ?s1"
  have "?P (state_of ?r)"
  proof (rule for_each_invariant [where P = ?P])
    fix x :: nat and u :: daemon assume "?P u"
    then show "?P (state_of (beam_switch_body X dest x u))"
      using beam_switch_body_frame [of X dest x u] by auto
  next
    show "?P ?s1" by (simp add: radio_put_def)
  qed
  moreover have "ephemeris_locations ?s1 obj = Some dest"
    using Some by (simp add: radio_put_def)
  ultimately show ?thesis
    by (cases ?r) (simp_all add: beam_switch_def Let_def radio_put_def)
qed

lemma n_point_scan_out_of_bounds:
  assumes "ephemeris_locations s obj = Some dest" and "\<not> within_bounds X dest"
  shows "\<exists>t. n_point_scan X obj s = Returned t
           \<and> rotor_cmd_location t = rotor_cmd_location s
           \<and> ephemeris_cmd_location t = Some obj"
proof -
  let ?s1 = "radio_put (''soutrack'', PStr obj) (s\<lparr>ephemeris_cmd_location := None\<rparr>)"
  let ?P = "\<lambda>t. ephemeris_locations t obj = Some dest \<and> rotor_cmd_location t = rotor_cmd_location s"
  have "\<exists>t. for_each [0..<25] (n_point_scan_body X obj) ?s1 = Returned t \<and> ?P t"
  proof (rule for_each_Returned_invariant [where P = ?P])
    fix x :: nat and u :: daemon assume "?P u"
    then show "\<exists>t. n_point_scan_body X obj x u = Returned t \<and> ?P t"
      using assms(2) by (simp add: n_point_scan_body_out_of_bounds)
  next
    show "?P ?s1" using assms(1) by (simp add: radio_put_def)
  qed
  then show ?thesis by (auto simp: n_point_scan_def)
qed

lemma beam_switch_out_of_bounds:
  assumes "ephemeris_locations s obj = Some dest" and "\<not> within_bounds X dest"
  shows "\<exists>t. beam_switch X obj s = Returned t
           \<and> rotor_cmd_location t = rotor_cmd_location s
           \<and> ephemeris_cmd_location t = Some obj"
proof -
  let ?s1 = "radio_put (''soutrack'', PStr obj) (s\<lparr>ephemeris_cmd_location := None\<rparr>)"
  let ?P = "\<lambda>t. rotor_cmd_location t = rotor_cmd_location s"
  have "\<exists>t. for_each [0..<3] (beam_switch_body X dest) ?s1 = Returned t \<and> ?P t"
  proof (rule for_each_Returned_invariant [where P = ?P])
    fix x :: nat and u :: daemon assume "?P u"
    then show "\<exists>t. beam_switch_body X dest x u = Returned t \<and> ?P t"
      using assms(2) by (simp add: beam_switch_body_out_of_bounds)
  next
    show "?P ?s1" by (simp add: radio_put_def)
  qed
  moreover have "ephemeris_locations ?s1 obj = Some dest"
    using assms(1) by (simp add: radio_put_def)
  ultimately show ?thesis by (auto simp: beam_switch_def Let_def radio_put_def)
qed

lemma only_caught_simps [simp]:
  "only_caught (Returned s)" "only_caught (Blocked s)"
  "only_caught (Raised e s) \<longleftrightarrow> e = IndexError \<or> e = ValueError \<or> e = ConnectionRefusedError"
  by (simp_all add: only_caught_def)



lemma only_caught_or_sleep_simps [simp]:
  "only_caught_or_sleep s (Returned t)" "only_caught_or_sleep s (sleep d s)"
  by (auto simp: only_caught_or_sleep_def)



lemma n_point_scan_not_raised:
  assumes "ephemeris_locations s obj = Some dest"
  shows "not_raised (n_point_scan X obj s)"
proof -
  let ?s1 = "radio_put (''soutrack'', PStr obj) (s\<lparr>ephemeris_cmd_location := None\<rparr>)"
  let ?P = "\<lambda>t. ephemeris_locations t obj = Some dest"
  have "not_raised (for_each [0..<25] (n_point_scan_body X obj) ?s1)"
  proof (rule for_each_not_raised [where P = ?P])
    fix x :: nat and u :: daemon assume "?P u"
    then show "not_raised (n_point_scan_body X obj x u)
                 \<and> ?P (state_of (n_point_scan_body X obj x u))"
      using n_point_scan_body_frame [of u obj dest X x] by simp
  next
    show "?P ?s1" using assms by (simp add: radio_put_def)
  qed
  then show ?thesis
    by (cases "for_each [0..<25] (n_point_scan_body X obj) ?s1") (simp_all add: n_point_scan_def)
qed

lemma beam_switch_not_raised:
  assumes "ephemeris_locations s obj = Some dest"
  shows "not_raised (beam_switch X obj s)"
proof -
  let ?s1 = "radio_put (''soutrack'', PStr obj) (s\<lparr>ephemeris_cmd_location := None\<rparr>)"
  have "not_raised (for_each [0..<3] (beam_switch_body X dest) ?s1)"
  proof (rule for_each_not_raised [where P = "\<lambda>t. True"])
    fix x :: nat and u :: daemon
    show "not_raised (beam_switch_body X dest x u) \<and> True"
      using beam_switch_body_frame [of X dest x u] by simp
  qed simp
  moreover have "ephemeris_locations ?s1 obj = Some dest"
    using assms by (simp add: radio_put_def)
  ultimately show ?thesis
    by (cases "for_each [0..<3] (beam_switch_body X dest) ?s1")
       (simp_all add: beam_switch_def Let_def radio_put_def)
qed








section \<open>Stow\<close>

text \<open>
  C10. In every state, \<^verbatim>\<open>stow()\<close> sets the destination and the commanded position
  to the configured stow location, zeroes the offset and clears the tracked object,
  whether or not the stow location lies within the travel bounds: the bounds predicate
  is never consulted, so the result is the same under any two of them. This holds for
  the state in which the call returns and for the state in which it waits.
\<close>

theorem stow_unconditional:
  "rotor_destination (state_of (stow X s)) = stow_location s
   \<and> rotor_cmd_location (state_of (stow X s)) = stow_location s
   \<and> rotor_offsets (state_of (stow X s)) = (0, 0)
   \<and> ephemeris_cmd_location (state_of (stow X s)) = None
   \<and> stow (X\<lparr>angles_within_bounds := b\<rparr>) s = stow X s"
proof -
  have eq: "poll_arrival (X\<lparr>angles_within_bounds := b\<rparr>) rs t = poll_arrival X rs t" for rs t
    by (induction rs arbitrary: t) auto
  show ?thesis
    by (simp add: stow_def wait_for_arrival_def radio_put_def Let_def poll_arrival_keeps eq)
qed

section \<open>Recording\<close>

lemmas string_defs = lower_def lower_char_def is_space_def strip_def is_digit_def
  isnumeric_def digit_val_def two_digits_def strptime_HMS_def endswith_def

lemmas example_defs = example_daemon_def example_externals_def example_float_def
  example_raw_task_def

lemmas interpreter_defs = srt_daemon_main_step_def srt_daemon_main_body_def
  log_message_def radio_put_def dom_def Let_def

lemma start_recording_refused:
  "radio_save_raw_task s \<noteq> None \<or> radio_save_spec_task s \<noteq> None \<Longrightarrow>
   start_recording name s = log_message AlreadyRecording s"
  by (auto simp: start_recording_def)

lemma start_recording_routes:
  "radio_save_raw_task s = None \<Longrightarrow> radio_save_spec_task s = None \<Longrightarrow>
   (if name = None \<or> \<not> endswith (the name) ''.rad''
    then radio_save_raw_task (start_recording name s) \<noteq> None
         \<and> radio_save_spec_task (start_recording name s) = None
    else radio_save_raw_task (start_recording name s) = None
         \<and> radio_save_spec_task (start_recording name s) \<noteq> None)"
  by (simp add: start_recording_def Let_def)

lemma fold_start_recording_refused:
  "radio_save_raw_task s \<noteq> None \<Longrightarrow>
   fold start_recording names s
     = s\<lparr>command_error_logs := command_error_logs s @ replicate (length names) AlreadyRecording\<rparr>"
proof (induction names arbitrary: s)
  case Nil
  then show ?case by simp
next
  case (Cons n names)
  have "radio_save_raw_task (log_message AlreadyRecording s) \<noteq> None"
    using Cons.prems by (simp add: log_message_def)
  then show ?case
    using Cons.prems
    by (simp add: start_recording_refused Cons.IH log_message_def replicate_append_same)
qed

text \<open>
  C7, evaluated on the code. \<^verbatim>\<open>record test.rad\<close> on an idle daemon builds the
  spectral recorder task and stores its handle, but never calls \<^verbatim>\<open>start()\<close> on
  it, while \<^verbatim>\<open>record test.raw\<close> and a bare \<^verbatim>\<open>record\<close> build the raw
  recorder task and start it. A \<^verbatim>\<open>record\<close> that follows is refused and logged in
  both cases.
\<close>

theorem record_rad_builds_but_never_starts:
  "map_option started
     (radio_save_spec_task
        (state_of (srt_daemon_main_step example_externals ''record test.rad'' example_daemon)))
     = Some False
   \<and> radio_save_raw_task
        (state_of (srt_daemon_main_step example_externals ''record test.rad'' example_daemon))
     = None
   \<and> map_option started
        (radio_save_raw_task
           (state_of (srt_daemon_main_step example_externals ''record test.raw'' example_daemon)))
     = Some True
   \<and> map_option started
        (radio_save_raw_task
           (state_of (srt_daemon_main_step example_externals ''record'' example_daemon)))
     = Some True
   \<and> command_error_logs
        (state_of (srt_daemon_main example_externals [''record test.rad'', ''record b''] example_daemon))
     = [RunningCommand ''record test.rad'', RunningCommand ''record b'', AlreadyRecording]"
  by (simp add: srt_daemon_main_def interpreter_defs example_defs string_defs start_recording_def)

text \<open>
  C9. If \<^verbatim>\<open>set_samp_rate\<close> is called while a raw recording task is stored, the
  task is terminated and its handle stays in \<^verbatim>\<open>radio_save_raw_task\<close>. Every
  \<^verbatim>\<open>start_recording\<close> that follows, whatever the names, changes nothing but the
  log, which gains one "Already Recording" message per call. After
  \<^verbatim>\<open>stop_recording\<close> both handles are cleared and the next
  \<^verbatim>\<open>start_recording\<close> logs no refusal.
\<close>

theorem set_samp_rate_keeps_raw_handle:
  assumes "radio_save_raw_task s = Some t"
  shows "radio_save_raw_task (set_samp_rate r s) = Some (t\<lparr>terminated := True\<rparr>)
     \<and> fold start_recording names (set_samp_rate r s)
         = (set_samp_rate r s)
             \<lparr>command_error_logs := command_error_logs s @ replicate (length names) AlreadyRecording\<rparr>
     \<and> radio_save_raw_task (stop_recording (fold start_recording names (set_samp_rate r s))) = None
     \<and> radio_save_spec_task (stop_recording (fold start_recording names (set_samp_rate r s))) = None
     \<and> command_error_logs
          (start_recording name (stop_recording (fold start_recording names (set_samp_rate r s))))
         = command_error_logs s @ replicate (length names) AlreadyRecording"
proof -
  have raw: "radio_save_raw_task (set_samp_rate r s) = Some (t\<lparr>terminated := True\<rparr>)"
    using assms by (simp add: set_samp_rate_def radio_put_def Let_def)
  have logs: "command_error_logs (set_samp_rate r s) = command_error_logs s"
    by (simp add: set_samp_rate_def radio_put_def Let_def split: option.splits)
  have fold_eq: "fold start_recording names (set_samp_rate r s)
         = (set_samp_rate r s)
             \<lparr>command_error_logs := command_error_logs s @ replicate (length names) AlreadyRecording\<rparr>"
    using fold_start_recording_refused [of "set_samp_rate r s" names] raw logs by simp
  show ?thesis
    unfolding fold_eq using raw
    by (simp add: stop_recording_def start_recording_def Let_def)
qed

theorem set_samp_rate_keeps_raw_handle_witness:
  "radio_save_raw_task (example_daemon\<lparr>radio_save_raw_task := Some example_raw_task\<rparr>)
     = Some example_raw_task
   \<and> radio_save_raw_task
        (set_samp_rate 3 (example_daemon\<lparr>radio_save_raw_task := Some example_raw_task\<rparr>))
     = Some (example_raw_task\<lparr>terminated := True\<rparr>)
   \<and> command_error_logs
        (fold start_recording [None, Some ''a.rad'']
           (set_samp_rate 3 (example_daemon\<lparr>radio_save_raw_task := Some example_raw_task\<rparr>)))
     = [AlreadyRecording, AlreadyRecording]"
proof -
  have h: "radio_save_raw_task (example_daemon\<lparr>radio_save_raw_task := Some example_raw_task\<rparr>)
             = Some example_raw_task"
    by simp
  show ?thesis
    using h set_samp_rate_keeps_raw_handle [OF h, of 3 "[None, Some ''a.rad'']" None]
    by (simp add: example_daemon_def)
qed

section \<open>Calibration at startup\<close>

text \<open>
  C8, as stated, fails for a document that has as many \<^verbatim>\<open>cal_values\<close> as there
  are spectral bins and no \<^verbatim>\<open>cal_pwr\<close>: the values are taken from the document
  before the missing key raises the KeyError that the constructor swallows, and the
  power keeps its default. The profile is then neither loaded from the document nor
  the neutral one.
\<close>

theorem init_calibration_without_power_counterexample:
  "json_cal_values \<lparr>json_cal_values = Some [2, 3], json_cal_pwr = None\<rparr> = Some [2, 3]
   \<and> length [2, 3 :: real] = 2
   \<and> init_calibration 2 100 200 (Some \<lparr>json_cal_values = Some [2, 3], json_cal_pwr = None\<rparr>)
       = Inr ([2, 3], 1 / 300)
   \<and> init_calibration 2 100 200 (Some \<lparr>json_cal_values = Some [2, 3], json_cal_pwr = None\<rparr>)
       \<noteq> Inr (replicate 2 1, 1 / (100 + 200))"
  by (simp add: init_calibration_def numeral_2_eq_2)

text \<open>
  C8, amended. At startup, with a nonzero \<^verbatim>\<open>TSYS + TCAL\<close>: a calibration document
  that carries \<^verbatim>\<open>cal_pwr\<close> and whose \<^verbatim>\<open>cal_values\<close> has as many entries as there
  are spectral bins gives the calibration values and power; a document whose
  \<^verbatim>\<open>cal_values\<close> has another length or is absent, and no document at all, give
  the neutral profile, every value 1 and power \<^verbatim>\<open>1 / (TSYS + TCAL)\<close>.
\<close>

theorem init_calibration_load_or_default:
  assumes "tsys + tcal \<noteq> 0"
  shows "(json_cal_values doc = Some vs \<and> length vs = n \<and> json_cal_pwr doc = Some p
            \<longrightarrow> init_calibration n tsys tcal (Some doc) = Inr (vs, p))
       \<and> (json_cal_values doc = Some vs \<and> length vs \<noteq> n
            \<longrightarrow> init_calibration n tsys tcal (Some doc) = Inr (replicate n 1, 1 / (tsys + tcal)))
       \<and> (json_cal_values doc = None
            \<longrightarrow> init_calibration n tsys tcal (Some doc) = Inr (replicate n 1, 1 / (tsys + tcal)))
       \<and> init_calibration n tsys tcal None = Inr (replicate n 1, 1 / (tsys + tcal))"
  using assms by (simp add: init_calibration_def Let_def)

theorem init_calibration_load_or_default_witness:
  "init_calibration 2 100 200 (Some \<lparr>json_cal_values = Some [2, 3], json_cal_pwr = Some 5\<rparr>)
     = Inr ([2, 3], 5)
   \<and> init_calibration 3 100 200 (Some \<lparr>json_cal_values = Some [2, 3], json_cal_pwr = Some 5\<rparr>)
     = Inr ([1, 1, 1], 1 / 300)
   \<and> init_calibration 3 100 200 (Some \<lparr>json_cal_values = None, json_cal_pwr = Some 5\<rparr>)
     = Inr ([1, 1, 1], 1 / 300)
   \<and> init_calibration 3 100 200 None = Inr ([1, 1, 1], 1 / 300)"
proof -
  have h: "(100::real) + 200 \<noteq> 0" by simp
  show ?thesis
    using init_calibration_load_or_default
            [OF h, of "\<lparr>json_cal_values = Some [2, 3], json_cal_pwr = Some 5\<rparr>" "[2, 3]" 2 5]
          init_calibration_load_or_default
            [OF h, of "\<lparr>json_cal_values = Some [2, 3], json_cal_pwr = Some 5\<rparr>" "[2, 3]" 3 5]
          init_calibration_load_or_default
            [OF h, of "\<lparr>json_cal_values = None, json_cal_pwr = Some 5\<rparr>" "[]" 3 5]
    by (simp add: numeral_3_eq_3)
qed

section \<open>Leaving the command loop\<close>

lemma srt_daemon_main_loop_running:
  "srt_daemon_main_loop X True commands s \<noteq> Returned t"
proof (induction commands arbitrary: s)
  case Nil
  then show ?case by simp
next
  case (Cons c cs)
  then show ?case by (cases "srt_daemon_main_step X c s") simp_all
qed

text \<open>Were \<^verbatim>\<open>keep_running\<close> false, the loop would end and the daemon would stow
  and stop the recorders.\<close>

lemma srt_daemon_main_loop_stopped:
  "srt_daemon_main_loop X False commands s = srt_daemon_main_end X s"
  by (cases commands) simp_all

lemma srt_daemon_main_end_stows:
  assumes "srt_daemon_main_end X s = Returned t"
  shows "rotor_cmd_location t = stow_location s \<and> radio_save_raw_task t = None
   \<and> radio_save_spec_task t = None"
proof (cases "stow X s")
  case (Returned u)
  have u: "rotor_cmd_location u = stow_location s"
    using stow_fields [of X s] Returned by simp
  have "t = (if radio_autostart (stop_recording u)
             then (stop_recording u)\<lparr>radio_process_terminated := True\<rparr>
             else stop_recording u)"
    using assms Returned by (simp add: srt_daemon_main_end_def Let_def)
  then show ?thesis
    using u stop_recording_fields [of u] by (simp split: if_splits)
next
  case (Blocked u)
  then show ?thesis using assms by (simp add: srt_daemon_main_end_def)
next
  case (Raised e u)
  then show ?thesis using assms by (simp add: srt_daemon_main_end_def)
qed

text \<open>
  C3, evaluated on the code. Whatever lines arrive on the command queue, with
  \<^verbatim>\<open>quit\<close> among them or not, \<^verbatim>\<open>srt_daemon_main\<close> never returns: it waits
  for the next command, waits in a pointing operation, or dies of an exception it does
  not catch. After the single command \<^verbatim>\<open>quit\<close> the daemon waits for the next
  command; it has put \<^verbatim>\<open>("is_running", False)\<close> on the radio queue and has neither
  stowed nor touched a recorder.
\<close>

theorem quit_leaves_loop_running:
  "(\<forall>t. srt_daemon_main X commands s \<noteq> Returned t)
   \<and> srt_daemon_main example_externals [''quit'']
        (example_daemon\<lparr>radio_save_raw_task := Some example_raw_task,
                         rotor_cmd_location := (100, 40)\<rparr>)
     = Blocked
         (example_daemon\<lparr>radio_save_raw_task := Some example_raw_task,
                          rotor_cmd_location := (100, 40),
                          radio_queue := [(''is_running'', PBool False)],
                          command_error_logs := [RunningCommand ''quit'']\<rparr>)"
proof
  show "\<forall>t. srt_daemon_main X commands s \<noteq> Returned t"
    by (simp add: srt_daemon_main_def srt_daemon_main_loop_running)
  show "srt_daemon_main example_externals [''quit'']
        (example_daemon\<lparr>radio_save_raw_task := Some example_raw_task,
                         rotor_cmd_location := (100, 40)\<rparr>)
     = Blocked
         (example_daemon\<lparr>radio_save_raw_task := Some example_raw_task,
                          rotor_cmd_location := (100, 40),
                          radio_queue := [(''is_running'', PBool False)],
                          command_error_logs := [RunningCommand ''quit'']\<rparr>)"
    by (simp add: srt_daemon_main_def interpreter_defs example_defs string_defs quit_def)
qed

section \<open>Waiting for a time of day\<close>

text \<open>What the day-rolling loop computes: the first of \<^verbatim>\<open>time_val\<close>,
  \<^verbatim>\<open>time_val\<close> plus one day, plus two days, ... that is not before \<^verbatim>\<open>now\<close>.\<close>

lemma next_day_until_closed:
  "next_day_until now t = (if t < now then t + 86400 * real_of_int \<lceil>(now - t) / 86400\<rceil> else t)"
proof (induction now t rule: next_day_until.induct)
  case (1 now t)
  show ?case
  proof (cases "t < now")
    case False
    then show ?thesis by simp
  next
    case True
    note IH = 1 [OF True]
    show ?thesis
    proof (cases "t + 86400 < now")
      case True
      have "\<lceil>(now - t) / 86400\<rceil> = \<lceil>(now - (t + 86400)) / 86400\<rceil> + 1"
      proof -
        have "(now - t) / 86400 = (now - (t + 86400)) / 86400 + 1" by (simp add: field_simps)
        then show ?thesis by (simp only: ceiling_add_one)
      qed
      then show ?thesis using True \<open>t < now\<close> IH
        by (subst next_day_until.simps) (simp add: algebra_simps)
    next
      case False
      then have "\<lceil>(now - t) / 86400\<rceil> = 1" using \<open>t < now\<close> by (simp add: ceiling_eq_iff)
      then show ?thesis using False \<open>t < now\<close>
        by (subst next_day_until.simps, subst next_day_until.simps) simp
    qed
  qed
qed

text \<open>Had the time of day been parsed, midnight asked for at 23:59:59 would be one
  second away.\<close>

lemma midnight_is_one_second_away:
  "strptime_HMS ''00:00:00'' = Some t \<Longrightarrow> next_day_until 86399 t - 86399 = 1"
  by (simp add: next_day_until_closed strptime_HMS_def two_digits_def is_digit_def digit_val_def)

text \<open>Whatever the command, the time string of the \<^verbatim>\<open>lst\<close> branch is the
  lower-cased token itself, and it never parses.\<close>

lemma replace_absent:
  "old \<noteq> [] \<Longrightarrow> hd old \<notin> set s \<Longrightarrow> replace old new s = s"
proof (induction s)
  case Nil
  show ?case by simp
next
  case (Cons c cs)
  have "take (length old) (c # cs) \<noteq> old"
  proof
    assume "take (length old) (c # cs) = old"
    then have "hd old = c" using Cons.prems(1) by (cases old) auto
    then show False using Cons.prems(2) by simp
  qed
  then show ?case using Cons by simp
qed

lemma lower_char_not_upper_L: "lower_char c \<noteq> CHR ''L''"
  by (simp add: lower_char_def split: option.splits)

lemma lower_no_upper_L: "CHR ''L'' \<notin> set (lower w)"
proof
  assume "CHR ''L'' \<in> set (lower w)"
  then obtain c where "lower_char c = CHR ''L''" by (auto simp: lower_def)
  then show False using lower_char_not_upper_L [of c] by simp
qed

lemma strptime_HMS_lst:
  "hd (split_on CHR '':'' s) = ''lst'' \<Longrightarrow> strptime_HMS s = None"
  by (auto simp: strptime_HMS_def two_digits_def split: list.splits option.splits)

lemma lst_time_never_parses:
  "hd (split_on CHR '':'' (lower w)) = ''lst'' \<Longrightarrow>
   strptime_HMS (replace ''LST:'' [] (lower w)) = None"
  using replace_absent [of "''LST:''" "lower w" "[]"] lower_no_upper_L [of w]
  by (simp add: strptime_HMS_lst)

text \<open>
  C6, evaluated on the code. The clock stands at 23:59:59 UTC. The command
  \<^verbatim>\<open>lst 00:00:00\<close>, and \<^verbatim>\<open>LST:00:00:00\<close> as well, does not sleep at all: the
  interpreter hands the lower-cased first token, from which the upper-case
  \<^verbatim>\<open>LST:\<close> cannot be cut, to \<^verbatim>\<open>strptime\<close>, which raises ValueError; the
  error is logged and the loop goes on.
\<close>

theorem lst_command_never_sleeps:
  "srt_daemon_main_step example_externals ''lst 00:00:00'' example_daemon
     = Returned
         (example_daemon
            \<lparr>current_queue_item := ''lst 00:00:00'',
             command_error_logs := [RunningCommand ''lst 00:00:00'', ExnText ValueError]\<rparr>)
   \<and> srt_daemon_main_step example_externals ''LST:00:00:00'' example_daemon
     = Returned
         (example_daemon
            \<lparr>current_queue_item := ''LST:00:00:00'',
             command_error_logs := [RunningCommand ''LST:00:00:00'', ExnText ValueError]\<rparr>)
   \<and> slept (state_of (srt_daemon_main_step example_externals ''lst 00:00:00'' example_daemon)) = []"
  by (simp add: interpreter_defs example_defs string_defs)

section \<open>Travel bounds\<close>

text \<open>
  C1, as stated, fails at three places. With a tracked object and an offset that leads
  out of the bounds, \<^verbatim>\<open>point_at_offset\<close> rejects the offset and leaves the
  object tracked. An n-point scan of an object outside the bounds commands nothing and
  ends with that object tracked. \<^verbatim>\<open>stow\<close> commits a stow location outside the
  bounds.
\<close>

theorem out_of_bounds_keeps_tracking_counterexample:
  "\<not> within_bounds example_externals
        (add_azel (rotor_destination (example_daemon\<lparr>ephemeris_cmd_location := Some ''Sun''\<rparr>))
           (0, 100))
   \<and> ephemeris_cmd_location
        (state_of (point_at_offset example_externals 0 100
           (example_daemon\<lparr>ephemeris_cmd_location := Some ''Sun''\<rparr>)))
       = Some ''Sun''
   \<and> \<not> within_bounds example_externals (100, - 5)
   \<and> ephemeris_cmd_location
        (state_of (n_point_scan example_externals ''Moon''
           (example_daemon\<lparr>ephemeris_locations := [''Moon'' \<mapsto> (100, - 5)]\<rparr>)))
       = Some ''Moon''
   \<and> \<not> within_bounds example_externals (180, - 10)
   \<and> rotor_cmd_location
        (state_of (stow example_externals (example_daemon\<lparr>stow_location := (180, - 10)\<rparr>)))
       = (180, - 10)"
proof -
  have a: "\<not> within_bounds example_externals
        (add_azel (rotor_destination (example_daemon\<lparr>ephemeris_cmd_location := Some ''Sun''\<rparr>))
           (0, 100))"
    by (simp add: within_bounds_def example_externals_def example_daemon_def add_azel_def)
  have b: "ephemeris_cmd_location
        (state_of (point_at_offset example_externals 0 100
           (example_daemon\<lparr>ephemeris_cmd_location := Some ''Sun''\<rparr>)))
       = Some ''Sun''"
    by (simp add: point_at_offset_frame)
  have c: "\<not> within_bounds example_externals (100, - 5)"
    by (simp add: within_bounds_def example_externals_def)
  have d: "ephemeris_cmd_location
        (state_of (n_point_scan example_externals ''Moon''
           (example_daemon\<lparr>ephemeris_locations := [''Moon'' \<mapsto> (100, - 5)]\<rparr>)))
       = Some ''Moon''"
    using n_point_scan_out_of_bounds
            [of "example_daemon\<lparr>ephemeris_locations := [''Moon'' \<mapsto> (100, - 5)]\<rparr>"
               "''Moon''" "(100, - 5)" example_externals] c
    by auto
  have e: "\<not> within_bounds example_externals (180, - 10)"
    by (simp add: within_bounds_def example_externals_def)
  have f: "rotor_cmd_location
        (state_of (stow example_externals (example_daemon\<lparr>stow_location := (180, - 10)\<rparr>)))
       = (180, - 10)"
    by (simp add: stow_fields)
  show ?thesis using a b c d e f by blast
qed

text \<open>
  C1, amended. Whenever \<^verbatim>\<open>point_at_object\<close>, \<^verbatim>\<open>point_at_azel\<close>,
  \<^verbatim>\<open>point_at_offset\<close>, \<^verbatim>\<open>n_point_scan\<close>, \<^verbatim>\<open>beam_switch\<close> or a turn
  of the ephemeris refresh loop assigns the commanded position, the assigned
  azimuth/elevation satisfies the travel bounds. For a target outside the bounds each
  of them leaves the commanded position as it was; \<^verbatim>\<open>point_at_object\<close>,
  \<^verbatim>\<open>point_at_azel\<close> and the refresh loop leave the tracked object unset,
  \<^verbatim>\<open>point_at_offset\<close> leaves the tracked object as it was, and the two scans
  return with the object tracked. The statement is about the state in which the
  operation returns, waits or raises.
\<close>

theorem commanded_position_within_bounds:
  "(ephemeris_locations s obj = Some p \<longrightarrow>
      (if within_bounds X p
       then rotor_cmd_location (state_of (point_at_object X obj s)) = p
            \<and> ephemeris_cmd_location (state_of (point_at_object X obj s)) = Some obj
       else rotor_cmd_location (state_of (point_at_object X obj s)) = rotor_cmd_location s
            \<and> ephemeris_cmd_location (state_of (point_at_object X obj s)) = None))
   \<and> (if within_bounds X (az, el)
       then rotor_cmd_location (state_of (point_at_azel X az el s)) = (az, el)
       else rotor_cmd_location (state_of (point_at_azel X az el s)) = rotor_cmd_location s)
   \<and> ephemeris_cmd_location (state_of (point_at_azel X az el s)) = None
   \<and> (if within_bounds X (add_azel (rotor_destination s) (a, b))
       then rotor_cmd_location (state_of (point_at_offset X a b s))
              = add_azel (rotor_destination s) (a, b)
       else rotor_cmd_location (state_of (point_at_offset X a b s)) = rotor_cmd_location s)
   \<and> ephemeris_cmd_location (state_of (point_at_offset X a b s)) = ephemeris_cmd_location s
   \<and> (ephemeris_cmd_location s = Some obj \<and> table obj = Some p \<longrightarrow>
        (if within_bounds X p \<and> within_bounds X (add_azel p (rotor_offsets s))
         then rotor_cmd_location (state_of (update_ephemeris_location_body X table s))
                = add_azel p (rotor_offsets s)
              \<and> ephemeris_cmd_location (state_of (update_ephemeris_location_body X table s))
                = Some obj
         else rotor_cmd_location (state_of (update_ephemeris_location_body X table s))
                = rotor_cmd_location s
              \<and> ephemeris_cmd_location (state_of (update_ephemeris_location_body X table s))
                = None))
   \<and> (ephemeris_cmd_location s = None \<longrightarrow>
        rotor_cmd_location (state_of (update_ephemeris_location_body X table s))
          = rotor_cmd_location s)
   \<and> (rotor_cmd_location (state_of (n_point_scan X obj s)) = rotor_cmd_location s
      \<or> within_bounds X (rotor_cmd_location (state_of (n_point_scan X obj s))))
   \<and> (rotor_cmd_location (state_of (beam_switch X obj s)) = rotor_cmd_location s
      \<or> within_bounds X (rotor_cmd_location (state_of (beam_switch X obj s))))
   \<and> (ephemeris_locations s obj = Some p \<and> \<not> within_bounds X p \<longrightarrow>
        (\<exists>t. n_point_scan X obj s = Returned t
              \<and> rotor_cmd_location t = rotor_cmd_location s
              \<and> ephemeris_cmd_location t = Some obj)
        \<and> (\<exists>t. beam_switch X obj s = Returned t
              \<and> rotor_cmd_location t = rotor_cmd_location s
              \<and> ephemeris_cmd_location t = Some obj))"
proof -
  have obj: "ephemeris_locations s obj = Some p \<longrightarrow>
      (if within_bounds X p
       then rotor_cmd_location (state_of (point_at_object X obj s)) = p
            \<and> ephemeris_cmd_location (state_of (point_at_object X obj s)) = Some obj
       else rotor_cmd_location (state_of (point_at_object X obj s)) = rotor_cmd_location s
            \<and> ephemeris_cmd_location (state_of (point_at_object X obj s)) = None)"
    by (simp add: point_at_object_accepted point_at_object_rejected)
  have azel: "(if within_bounds X (az, el)
       then rotor_cmd_location (state_of (point_at_azel X az el s)) = (az, el)
       else rotor_cmd_location (state_of (point_at_azel X az el s)) = rotor_cmd_location s)
     \<and> ephemeris_cmd_location (state_of (point_at_azel X az el s)) = None"
    by (simp add: point_at_azel_accepted point_at_azel_rejected)
  have off: "(if within_bounds X (add_azel (rotor_destination s) (a, b))
       then rotor_cmd_location (state_of (point_at_offset X a b s))
              = add_azel (rotor_destination s) (a, b)
       else rotor_cmd_location (state_of (point_at_offset X a b s)) = rotor_cmd_location s)
     \<and> ephemeris_cmd_location (state_of (point_at_offset X a b s)) = ephemeris_cmd_location s"
    by (simp add: point_at_offset_accepted point_at_offset_rejected point_at_offset_frame
          log_message_def)
  have eph: "ephemeris_cmd_location s = Some obj \<and> table obj = Some p \<longrightarrow>
        (if within_bounds X p \<and> within_bounds X (add_azel p (rotor_offsets s))
         then rotor_cmd_location (state_of (update_ephemeris_location_body X table s))
                = add_azel p (rotor_offsets s)
              \<and> ephemeris_cmd_location (state_of (update_ephemeris_location_body X table s))
                = Some obj
         else rotor_cmd_location (state_of (update_ephemeris_location_body X table s))
                = rotor_cmd_location s
              \<and> ephemeris_cmd_location (state_of (update_ephemeris_location_body X table s))
                = None)"
    by (simp add: update_ephemeris_accepted update_ephemeris_rejected)
  have idle: "ephemeris_cmd_location s = None \<longrightarrow>
        rotor_cmd_location (state_of (update_ephemeris_location_body X table s))
          = rotor_cmd_location s"
    by (simp add: update_ephemeris_idle)
  have out: "ephemeris_locations s obj = Some p \<and> \<not> within_bounds X p \<longrightarrow>
        (\<exists>t. n_point_scan X obj s = Returned t
              \<and> rotor_cmd_location t = rotor_cmd_location s
              \<and> ephemeris_cmd_location t = Some obj)
        \<and> (\<exists>t. beam_switch X obj s = Returned t
              \<and> rotor_cmd_location t = rotor_cmd_location s
              \<and> ephemeris_cmd_location t = Some obj)"
    using n_point_scan_out_of_bounds [of s obj p X] beam_switch_out_of_bounds [of s obj p X]
    by blast
  show ?thesis
    using obj azel off eph idle out n_point_scan_cmd [of X obj s] beam_switch_cmd [of X obj s]
    by blast
qed


theorem commanded_position_within_bounds_witness:
  "ephemeris_locations example_daemon ''Sun'' = Some (100, 40)
   \<and> within_bounds example_externals (100, 40)
   \<and> rotor_cmd_location (state_of (point_at_object example_externals ''Sun'' example_daemon))
       = (100, 40)
   \<and> ephemeris_cmd_location (state_of (point_at_object example_externals ''Sun'' example_daemon))
       = Some ''Sun''
   \<and> rotor_cmd_location (state_of (point_at_azel example_externals 10 95 example_daemon))
       = (180, 10)
   \<and> rotor_cmd_location (state_of (point_at_offset example_externals 1 2 example_daemon))
       = (181, 12)
   \<and> ephemeris_locations (example_daemon\<lparr>ephemeris_locations := [''Moon'' \<mapsto> (100, - 5)]\<rparr>) ''Moon''
       = Some (100, - 5)
   \<and> \<not> within_bounds example_externals (100, - 5)
   \<and> ephemeris_cmd_location
        (state_of (point_at_object example_externals ''Moon''
           (example_daemon\<lparr>ephemeris_locations := [''Moon'' \<mapsto> (100, - 5)]\<rparr>)))
       = None
   \<and> rotor_cmd_location
        (state_of (point_at_object example_externals ''Moon''
           (example_daemon\<lparr>ephemeris_locations := [''Moon'' \<mapsto> (100, - 5)]\<rparr>)))
       = (180, 10)"
proof -
  have h1: "ephemeris_locations example_daemon ''Sun'' = Some (100, 40)"
    by (simp add: example_daemon_def)
  have h2: "within_bounds example_externals (100, 40)"
    by (simp add: within_bounds_def example_externals_def)
  have h3: "ephemeris_locations (example_daemon\<lparr>ephemeris_locations := [''Moon'' \<mapsto> (100, - 5)]\<rparr>) ''Moon''
       = Some (100, - 5)"
    by simp
  have h4: "\<not> within_bounds example_externals (100, - 5)"
    by (simp add: within_bounds_def example_externals_def)
  have h5: "\<not> within_bounds example_externals (10, 95)"
    by (simp add: within_bounds_def example_externals_def)
  have h6: "within_bounds example_externals (add_azel (rotor_destination example_daemon) (1, 2))"
    by (simp add: within_bounds_def example_externals_def example_daemon_def add_azel_def)
  have h7: "add_azel (rotor_destination example_daemon) (1, 2) = (181, 12)"
    by (simp add: example_daemon_def add_azel_def)
  have h8: "rotor_cmd_location example_daemon = (180, 10)"
    by (simp add: example_daemon_def)
  show ?thesis
    using h1 h2 h3 h4 h5 h6 h7 h8
      commanded_position_within_bounds
        [where s = example_daemon and obj = "''Sun''" and p = "(100, 40)"
           and X = example_externals and az = 10 and el = 95 and a = 1 and b = 2]
      commanded_position_within_bounds
        [where s = "example_daemon\<lparr>ephemeris_locations := [''Moon'' \<mapsto> (100, - 5)]\<rparr>"
           and obj = "''Moon''" and p = "(100, - 5)" and X = example_externals]
    by simp
qed

section \<open>Errors in the command loop\<close>




section \<open>Scan patterns\<close>

lemma upt_25: "[0..<25] = [0, 1, 2, 3, 4, 5, 6, 7, 8, 9, 10, 11, 12, 13, 14, 15, 16, 17, 18, 19,
    20, 21, 22, 23, 24]"
  by code_simp

lemma upt_3: "[0..<3] = [0, 1, 2]"
  by code_simp

lemma upto_grid: "[- 2..2] = [- 2, - 1, 0, 1, 2]" "[- 1..1] = [- 1, 0, 1]"
  by code_simp+

lemma n_point_scan_offsets_grid:
  "map (n_point_scan_offsets X bw dest) [0..<25] = spec_grid_cells X bw (snd dest)"
  unfolding upt_25 spec_grid_cells_def upto_grid
  by (simp add: n_point_scan_offsets_def Let_def)

lemma length_spec_grid_cells: "length (spec_grid_cells X bw el) = 25"
  unfolding spec_grid_cells_def upto_grid by simp

lemma beam_switch_offsets_legs:
  "map (beam_switch_offsets X bw dest) [0..<3] = spec_beam_switch_legs X bw (snd dest)"
  unfolding upt_3 spec_beam_switch_legs_def upto_grid
  by (simp add: beam_switch_offsets_def Let_def)

lemma n_point_scan_body_visit:
  "ephemeris_locations s obj = Some dest \<Longrightarrow> within_bounds X dest \<Longrightarrow>
   n_point_scan_body X obj scan s
     = visit_cell X dest (n_point_scan_offsets X (beamwidth s) dest scan) s"
  by (simp add: n_point_scan_body_def visit_cell_def Let_def)

lemma n_point_scan_refines:
  assumes tab: "ephemeris_locations s obj = Some dest" and inb: "within_bounds X dest"
  shows "n_point_scan X obj s = spec_n_point_scan X obj dest s"
proof -
  let ?s1 = "radio_put (''soutrack'', PStr obj) (s\<lparr>ephemeris_cmd_location := None\<rparr>)"
  let ?bw = "beamwidth s"
  let ?P = "\<lambda>t. ephemeris_locations t obj = Some dest \<and> beamwidth t = ?bw"
  have "for_each [0..<25] (n_point_scan_body X obj) ?s1
          = for_each [0..<25] (\<lambda>scan. visit_cell X dest (n_point_scan_offsets X ?bw dest scan)) ?s1"
  proof (rule for_each_cong_invariant [where P = ?P])
    fix x :: nat and u :: daemon assume P: "?P u"
    then have "n_point_scan_body X obj x u
                 = visit_cell X dest (n_point_scan_offsets X ?bw dest x) u"
      using n_point_scan_body_visit [of u obj dest X x] inb by simp
    moreover have "?P (state_of (n_point_scan_body X obj x u))"
      using P n_point_scan_body_frame [of u obj dest X x] by simp
    ultimately show "n_point_scan_body X obj x u
                 = visit_cell X dest (n_point_scan_offsets X ?bw dest x) u
               \<and> ?P (state_of (n_point_scan_body X obj x u))"
      by simp
  next
    show "?P ?s1" using tab by (simp add: radio_put_def)
  qed
  also have "\<dots> = for_each (map (n_point_scan_offsets X ?bw dest) [0..<25]) (visit_cell X dest) ?s1"
    by (simp add: for_each_map)
  also have "\<dots> = for_each (spec_grid_cells X ?bw (snd dest)) (visit_cell X dest) ?s1"
    by (simp only: n_point_scan_offsets_grid)
  finally show ?thesis
    by (simp add: n_point_scan_def spec_n_point_scan_def)
qed


lemma poll_arrival_dwells: "dwells (state_of (poll_arrival X rs s)) = dwells s"
  by (induction rs arbitrary: s) (simp_all add: dwells_def)

lemma point_at_offset_dwells: "dwells (state_of (point_at_offset X a b s)) = dwells s"
proof -
  have "dwells (state_of (wait_for_arrival X u)) = dwells u" for u
    by (simp add: wait_for_arrival_def poll_arrival_dwells)
  then show ?thesis
    by (simp add: point_at_offset_def Let_def log_message_def) (simp add: dwells_def)
qed

lemma visit_cell_Returned:
  assumes "visit_cell X dest cell s = Returned t"
  shows "dwells t = Suc (dwells s)"
proof -
  from assms obtain u
    where u: "point_at_offset X (fst cell) (snd cell) (s\<lparr>rotor_destination := dest\<rparr>) = Returned u"
      and t: "sleep 5 u = Returned t"
    by (auto simp: visit_cell_def and_then_Returned)
  have "dwells u = dwells s"
    using point_at_offset_dwells [of X "fst cell" "snd cell" "s\<lparr>rotor_destination := dest\<rparr>"] u
    by (simp add: dwells_def)
  moreover have "dwells t = Suc (dwells u)"
    using t by (auto simp: sleep_def sleep_limit_def dwells_def)
  ultimately show ?thesis by simp
qed

lemma spec_n_point_scan_Returned:
  assumes "spec_n_point_scan X obj dest s = Returned t"
  shows "rotor_offsets t = (0, 0) \<and> ephemeris_cmd_location t = Some obj
         \<and> dwells t = dwells s + 25"
proof -
  let ?s1 = "radio_put (''soutrack'', PStr obj) (s\<lparr>ephemeris_cmd_location := None\<rparr>)"
  from assms obtain u
    where u: "for_each (spec_grid_cells X (beamwidth s) (snd dest)) (visit_cell X dest) ?s1
                = Returned u"
      and t: "t = u\<lparr>rotor_offsets := (0, 0), ephemeris_cmd_location := Some obj\<rparr>"
    by (auto simp: spec_n_point_scan_def and_then_Returned)
  have "dwells u = dwells ?s1 + length (spec_grid_cells X (beamwidth s) (snd dest))"
    by (rule for_each_Returned_count [where f = "visit_cell X dest", OF _ u])
       (rule visit_cell_Returned)
  then have "dwells u = dwells s + 25"
    by (simp add: length_spec_grid_cells dwells_def radio_put_def)
  then show ?thesis using t by (simp add: dwells_def)
qed

lemma poll_arrival_in_range:
  "azel_within_range X (rotor_location s) (rotor_cmd_location s) \<Longrightarrow>
   poll_arrival X rs s = Returned (s\<lparr>rotor_readings := rs\<rparr>)"
  by (cases rs) simp_all

lemma poll_arrival_readings:
  "poll_arrival X rs (s\<lparr>rotor_readings := r\<rparr>) = poll_arrival X rs s"
proof (induction rs arbitrary: s)
  case Nil
  show ?case by simp
next
  case (Cons p ps)
  have comm: "(s\<lparr>rotor_readings := r\<rparr>)\<lparr>slept := a, rotor_location := p\<rparr>
                = (s\<lparr>slept := a, rotor_location := p\<rparr>)\<lparr>rotor_readings := r\<rparr>" for a
    by simp
  show ?case by (simp add: comm Cons.IH)
qed

lemma wait_for_arrival_readings:
  "wait_for_arrival X (s\<lparr>rotor_readings := r\<rparr>) = poll_arrival X r s"
  by (simp add: wait_for_arrival_def poll_arrival_readings)

lemma completes_wait_for_arrival:
  assumes refl: "\<forall>p. azel_within_range X p p"
  shows "completes (wait_for_arrival X)"
proof
  fix s :: daemon
  show "\<exists>pre u. \<forall>rs. wait_for_arrival X (s\<lparr>rotor_readings := pre @ rs\<rparr>)
                         = Returned (u\<lparr>rotor_readings := rs\<rparr>)"
  proof (cases "azel_within_range X (rotor_location s) (rotor_cmd_location s)")
    case True
    then have "\<forall>rs. wait_for_arrival X (s\<lparr>rotor_readings := [] @ rs\<rparr>)
                      = Returned (s\<lparr>rotor_readings := rs\<rparr>)"
      by (simp add: wait_for_arrival_readings poll_arrival_in_range)
    then show ?thesis by blast
  next
    case False
    let ?u = "s\<lparr>slept := slept s @ [1 / 10], rotor_location := rotor_cmd_location s\<rparr>"
    have "azel_within_range X (rotor_cmd_location s) (rotor_cmd_location s)"
      using refl by blast
    then have there: "azel_within_range X (rotor_location ?u) (rotor_cmd_location ?u)"
      by simp
    have "\<forall>rs. wait_for_arrival X (s\<lparr>rotor_readings := [rotor_cmd_location s] @ rs\<rparr>)
                      = Returned (?u\<lparr>rotor_readings := rs\<rparr>)"
    proof
      fix rs
      have "wait_for_arrival X (s\<lparr>rotor_readings := [rotor_cmd_location s] @ rs\<rparr>)
              = poll_arrival X rs ?u"
        using False by (simp add: wait_for_arrival_readings)
      also have "\<dots> = Returned (?u\<lparr>rotor_readings := rs\<rparr>)"
        by (rule poll_arrival_in_range [OF there])
      finally show "wait_for_arrival X (s\<lparr>rotor_readings := [rotor_cmd_location s] @ rs\<rparr>)
                      = Returned (?u\<lparr>rotor_readings := rs\<rparr>)" .
    qed
    then show ?thesis by blast
  qed
qed

lemma completes_and_then:
  assumes f: "completes f" and g: "completes g"
  shows "completes (\<lambda>s. and_then (f s) g)"
proof
  fix s :: daemon
  from f obtain pre1 u1
    where 1: "\<forall>rs. f (s\<lparr>rotor_readings := pre1 @ rs\<rparr>) = Returned (u1\<lparr>rotor_readings := rs\<rparr>)"
    by blast
  from g obtain pre2 u2
    where 2: "\<forall>rs. g (u1\<lparr>rotor_readings := pre2 @ rs\<rparr>) = Returned (u2\<lparr>rotor_readings := rs\<rparr>)"
    by blast
  have "\<forall>rs. and_then (f (s\<lparr>rotor_readings := (pre1 @ pre2) @ rs\<rparr>)) g
               = Returned (u2\<lparr>rotor_readings := rs\<rparr>)"
    using 1 2 by simp
  then show "\<exists>pre u. \<forall>rs. and_then (f (s\<lparr>rotor_readings := pre @ rs\<rparr>)) g
                            = Returned (u\<lparr>rotor_readings := rs\<rparr>)"
    by blast
qed

lemma completes_after:
  assumes f: "completes f"
    and g: "\<And>s r. g (s\<lparr>rotor_readings := r\<rparr>) = (g s)\<lparr>rotor_readings := r\<rparr>"
  shows "completes (\<lambda>s. f (g s))"
proof
  fix s :: daemon
  from f obtain pre u
    where "\<forall>rs. f ((g s)\<lparr>rotor_readings := pre @ rs\<rparr>) = Returned (u\<lparr>rotor_readings := rs\<rparr>)"
    by blast
  then have "\<forall>rs. f (g (s\<lparr>rotor_readings := pre @ rs\<rparr>)) = Returned (u\<lparr>rotor_readings := rs\<rparr>)"
    by (simp add: g)
  then show "\<exists>pre u. \<forall>rs. f (g (s\<lparr>rotor_readings := pre @ rs\<rparr>))
                            = Returned (u\<lparr>rotor_readings := rs\<rparr>)"
    by blast
qed

lemma completes_Returned:
  assumes g: "\<And>s r. g (s\<lparr>rotor_readings := r\<rparr>) = (g s)\<lparr>rotor_readings := r\<rparr>"
  shows "completes (\<lambda>s. Returned (g s))"
proof
  fix s :: daemon
  have "\<forall>rs. Returned (g (s\<lparr>rotor_readings := [] @ rs\<rparr>)) = Returned ((g s)\<lparr>rotor_readings := rs\<rparr>)"
    by (simp add: g)
  then show "\<exists>pre u. \<forall>rs. Returned (g (s\<lparr>rotor_readings := pre @ rs\<rparr>))
                            = Returned (u\<lparr>rotor_readings := rs\<rparr>)"
    by blast
qed

lemma completes_sleep_5: "completes (sleep 5)"
  using completes_Returned [of "\<lambda>s. s\<lparr>slept := slept s @ [5]\<rparr>"]
  by (simp add: sleep_def sleep_limit_def)

lemma completes_for_each:
  assumes "\<And>x. completes (f x)"
  shows "completes (for_each xs f)"
proof (induction xs)
  case Nil
  show ?case using completes_Returned [of "\<lambda>s. s"] by simp
next
  case (Cons x xs)
  show ?case using completes_and_then [OF assms [of x] Cons.IH] by simp
qed

lemma completes_point_at_offset:
  assumes refl: "\<forall>p. azel_within_range X p p"
  shows "completes (point_at_offset X a b)"
proof
  fix s :: daemon
  let ?cmd = "add_azel (rotor_destination s) (a, b)"
  show "\<exists>pre u. \<forall>rs. point_at_offset X a b (s\<lparr>rotor_readings := pre @ rs\<rparr>)
                         = Returned (u\<lparr>rotor_readings := rs\<rparr>)"
  proof (cases "within_bounds X ?cmd")
    case True
    let ?v = "s\<lparr>rotor_offsets := (a, b), rotor_cmd_location := ?cmd\<rparr>"
    have comm: "(s\<lparr>rotor_readings := r\<rparr>)\<lparr>rotor_offsets := (a, b), rotor_cmd_location := ?cmd\<rparr>
                  = ?v\<lparr>rotor_readings := r\<rparr>" for r
      by simp
    from completes_wait_for_arrival [OF refl] obtain pre u
      where "\<forall>rs. wait_for_arrival X (?v\<lparr>rotor_readings := pre @ rs\<rparr>)
                     = Returned (u\<lparr>rotor_readings := rs\<rparr>)"
      by blast
    then have "\<forall>rs. point_at_offset X a b (s\<lparr>rotor_readings := pre @ rs\<rparr>)
                     = Returned (u\<lparr>rotor_readings := rs\<rparr>)"
      using True by (simp add: point_at_offset_def Let_def comm)
    then show ?thesis by blast
  next
    case False
    then have "\<forall>rs. point_at_offset X a b (s\<lparr>rotor_readings := [] @ rs\<rparr>)
                     = Returned ((log_message (OffsetOutOfBounds (a, b)) s)\<lparr>rotor_readings := rs\<rparr>)"
      by (simp add: point_at_offset_def Let_def log_message_def)
    then show ?thesis by blast
  qed
qed

lemma completes_visit_cell:
  assumes refl: "\<forall>p. azel_within_range X p p"
  shows "completes (visit_cell X dest cell)"
proof -
  have "completes (\<lambda>s. point_at_offset X (fst cell) (snd cell) (s\<lparr>rotor_destination := dest\<rparr>))"
    by (rule completes_after [OF completes_point_at_offset [OF refl]]) simp
  from completes_and_then [OF this completes_sleep_5]
  show ?thesis by (simp add: visit_cell_def)
qed

lemma spec_n_point_scan_completes:
  assumes refl: "\<forall>p. azel_within_range X p p"
  shows "\<exists>rs t. spec_n_point_scan X obj dest (s\<lparr>rotor_readings := rs\<rparr>) = Returned t"
proof -
  let ?cells = "spec_grid_cells X (beamwidth s) (snd dest)"
  define F where "F = (\<lambda>u. and_then
      (for_each ?cells (visit_cell X dest)
         (radio_put (''soutrack'', PStr obj) (u\<lparr>ephemeris_cmd_location := None\<rparr>)))
      (\<lambda>t. Returned (t\<lparr>rotor_offsets := (0, 0), ephemeris_cmd_location := Some obj\<rparr>)))"
  have 1: "completes (for_each ?cells (visit_cell X dest))"
    by (rule completes_for_each) (rule completes_visit_cell [OF refl])
  have 2: "completes (\<lambda>u. for_each ?cells (visit_cell X dest)
                 (radio_put (''soutrack'', PStr obj) (u\<lparr>ephemeris_cmd_location := None\<rparr>)))"
    by (rule completes_after [OF 1]) (simp add: radio_put_def)
  have 3: "completes (\<lambda>t. Returned (t\<lparr>rotor_offsets := (0, 0), ephemeris_cmd_location := Some obj\<rparr>))"
    by (rule completes_Returned) simp
  have "completes F"
    unfolding F_def by (rule completes_and_then [OF 2 3])
  then obtain pre u
    where "\<forall>rs. F (s\<lparr>rotor_readings := pre @ rs\<rparr>) = Returned (u\<lparr>rotor_readings := rs\<rparr>)"
    by blast
  then have "F (s\<lparr>rotor_readings := pre @ []\<rparr>) = Returned (u\<lparr>rotor_readings := []\<rparr>)"
    by blast
  moreover have "spec_n_point_scan X obj dest (s\<lparr>rotor_readings := pre @ []\<rparr>)
                   = F (s\<lparr>rotor_readings := pre @ []\<rparr>)"
    by (simp add: spec_n_point_scan_def F_def)
  ultimately show ?thesis by metis
qed


lemma visit_leg_Returned:
  assumes "visit_leg X dest leg s = Returned t"
  shows "dwells t = Suc (dwells s)"
  using visit_cell_Returned [of X dest "snd leg" "radio_put (''beam_switch'', PInt (fst leg)) s" t]
    assms
  by (simp add: visit_leg_def dwells_def radio_put_def)

lemma beam_switch_body_visit:
  "within_bounds X dest \<Longrightarrow>
   beam_switch_body X dest j s
     = visit_leg X dest (int j + 1, beam_switch_offsets X (beamwidth s) dest j) s"
  by (simp add: beam_switch_body_def visit_leg_def visit_cell_def Let_def radio_put_def)

lemma beam_switch_legs_zip:
  "map (\<lambda>j. (int j + 1, beam_switch_offsets X bw dest j)) [0..<3]
     = zip [1, 2, 3] (spec_beam_switch_legs X bw (snd dest))"
  unfolding upt_3 spec_beam_switch_legs_def upto_grid
  by (simp add: beam_switch_offsets_def Let_def)

lemma beam_switch_refines:
  assumes tab: "ephemeris_locations s obj = Some dest" and inb: "within_bounds X dest"
  shows "beam_switch X obj s = spec_beam_switch X obj dest s"
proof -
  let ?s1 = "radio_put (''soutrack'', PStr obj) (s\<lparr>ephemeris_cmd_location := None\<rparr>)"
  let ?bw = "beamwidth s"
  let ?P = "\<lambda>t. beamwidth t = ?bw"
  have "for_each [0..<3] (beam_switch_body X dest) ?s1
          = for_each [0..<3]
              (\<lambda>j. visit_leg X dest (int j + 1, beam_switch_offsets X ?bw dest j)) ?s1"
  proof (rule for_each_cong_invariant [where P = ?P])
    fix x :: nat and u :: daemon assume P: "?P u"
    then have "beam_switch_body X dest x u
                 = visit_leg X dest (int x + 1, beam_switch_offsets X ?bw dest x) u"
      using beam_switch_body_visit [of X dest x u] inb by simp
    moreover have "?P (state_of (beam_switch_body X dest x u))"
      using P beam_switch_body_frame [of X dest x u] by simp
    ultimately show "beam_switch_body X dest x u
                 = visit_leg X dest (int x + 1, beam_switch_offsets X ?bw dest x) u
               \<and> ?P (state_of (beam_switch_body X dest x u))"
      by simp
  next
    show "?P ?s1" by (simp add: radio_put_def)
  qed
  also have "\<dots> = for_each (map (\<lambda>j. (int j + 1, beam_switch_offsets X ?bw dest j)) [0..<3])
                      (visit_leg X dest) ?s1"
    by (simp add: for_each_map)
  also have "\<dots> = for_each (zip [1, 2, 3] (spec_beam_switch_legs X ?bw (snd dest)))
                      (visit_leg X dest) ?s1"
    by (simp only: beam_switch_legs_zip)
  finally have loop: "for_each [0..<3] (beam_switch_body X dest) ?s1
      = for_each (zip [1, 2, 3] (spec_beam_switch_legs X ?bw (snd dest))) (visit_leg X dest) ?s1" .
  have "ephemeris_locations ?s1 obj = Some dest"
    using tab by (simp add: radio_put_def)
  then show ?thesis
    unfolding beam_switch_def spec_beam_switch_def Let_def by (simp add: loop)
qed

lemma beam_switch_Returned:
  assumes tab: "ephemeris_locations s obj = Some dest"
    and ret: "beam_switch X obj s = Returned t"
  shows "radio_queue t
           = radio_queue s @ [(''soutrack'', PStr obj), (''beam_switch'', PInt 1),
               (''beam_switch'', PInt 2), (''beam_switch'', PInt 3), (''beam_switch'', PInt 0)]
         \<and> rotor_offsets t = (0, 0) \<and> ephemeris_cmd_location t = Some obj"
proof -
  let ?s1 = "radio_put (''soutrack'', PStr obj) (s\<lparr>ephemeris_cmd_location := None\<rparr>)"
  have tab1: "ephemeris_locations ?s1 obj = Some dest"
    using tab by (simp add: radio_put_def)
  from ret tab1 obtain u
    where u: "for_each [0..<3] (beam_switch_body X dest) ?s1 = Returned u"
      and t: "t = (radio_put (''beam_switch'', PInt 0) (u\<lparr>rotor_offsets := (0, 0)\<rparr>))
                    \<lparr>ephemeris_cmd_location := Some obj\<rparr>"
    unfolding beam_switch_def Let_def by (auto simp: and_then_Returned)
  from u obtain u1 u2
    where 1: "beam_switch_body X dest 0 ?s1 = Returned u1"
      and 2: "beam_switch_body X dest 1 u1 = Returned u2"
      and 3: "beam_switch_body X dest 2 u2 = Returned u"
    unfolding upt_3 by (auto simp: and_then_Returned)
  have q1: "radio_queue u1 = radio_queue ?s1 @ [(''beam_switch'', PInt 1)]"
    using beam_switch_body_frame [of X dest 0 ?s1] 1 by simp
  have q2: "radio_queue u2 = radio_queue u1 @ [(''beam_switch'', PInt 2)]"
    using beam_switch_body_frame [of X dest 1 u1] 2 by simp
  have q3: "radio_queue u = radio_queue u2 @ [(''beam_switch'', PInt 3)]"
    using beam_switch_body_frame [of X dest 2 u2] 3 by simp
  show ?thesis
    using q1 q2 q3 t by (simp add: radio_put_def)
qed

lemma spec_beam_switch_dwells:
  assumes "spec_beam_switch X obj dest s = Returned t"
  shows "dwells t = dwells s + 3"
proof -
  let ?s1 = "radio_put (''soutrack'', PStr obj) (s\<lparr>ephemeris_cmd_location := None\<rparr>)"
  let ?legs = "zip [1 :: int, 2, 3] (spec_beam_switch_legs X (beamwidth s) (snd dest))"
  from assms obtain u
    where u: "for_each ?legs (visit_leg X dest) ?s1 = Returned u"
      and t: "t = (radio_put (''beam_switch'', PInt 0) (u\<lparr>rotor_offsets := (0, 0)\<rparr>))
                    \<lparr>ephemeris_cmd_location := Some obj\<rparr>"
    by (auto simp: spec_beam_switch_def and_then_Returned)
  have "dwells u = dwells ?s1 + length ?legs"
    by (rule for_each_Returned_count [where f = "visit_leg X dest", OF _ u])
       (rule visit_leg_Returned)
  moreover have "length ?legs = 3"
    unfolding spec_beam_switch_legs_def upto_grid by simp
  ultimately have "dwells u = dwells s + 3"
    by (simp add: dwells_def radio_put_def)
  then show ?thesis using t by (simp add: dwells_def radio_put_def)
qed

lemma completes_visit_leg:
  assumes refl: "\<forall>p. azel_within_range X p p"
  shows "completes (visit_leg X dest leg)"
proof -
  have "completes (\<lambda>s. visit_cell X dest (snd leg) (radio_put (''beam_switch'', PInt (fst leg)) s))"
    by (rule completes_after [OF completes_visit_cell [OF refl]]) (simp add: radio_put_def)
  then show ?thesis by (simp add: visit_leg_def)
qed

lemma spec_beam_switch_completes:
  assumes refl: "\<forall>p. azel_within_range X p p"
  shows "\<exists>rs t. spec_beam_switch X obj dest (s\<lparr>rotor_readings := rs\<rparr>) = Returned t"
proof -
  let ?legs = "zip [1 :: int, 2, 3] (spec_beam_switch_legs X (beamwidth s) (snd dest))"
  define F where "F = (\<lambda>u. and_then
      (for_each ?legs (visit_leg X dest)
         (radio_put (''soutrack'', PStr obj) (u\<lparr>ephemeris_cmd_location := None\<rparr>)))
      (\<lambda>t. Returned
          ((radio_put (''beam_switch'', PInt 0) (t\<lparr>rotor_offsets := (0, 0)\<rparr>))
             \<lparr>ephemeris_cmd_location := Some obj\<rparr>)))"
  have 1: "completes (for_each ?legs (visit_leg X dest))"
    by (rule completes_for_each) (rule completes_visit_leg [OF refl])
  have 2: "completes (\<lambda>u. for_each ?legs (visit_leg X dest)
                 (radio_put (''soutrack'', PStr obj) (u\<lparr>ephemeris_cmd_location := None\<rparr>)))"
    by (rule completes_after [OF 1]) (simp add: radio_put_def)
  have 3: "completes (\<lambda>t. Returned
          ((radio_put (''beam_switch'', PInt 0) (t\<lparr>rotor_offsets := (0, 0)\<rparr>))
             \<lparr>ephemeris_cmd_location := Some obj\<rparr>))"
    by (rule completes_Returned) (simp add: radio_put_def)
  have "completes F"
    unfolding F_def by (rule completes_and_then [OF 2 3])
  then obtain pre u
    where "\<forall>rs. F (s\<lparr>rotor_readings := pre @ rs\<rparr>) = Returned (u\<lparr>rotor_readings := rs\<rparr>)"
    by blast
  then have "F (s\<lparr>rotor_readings := pre @ []\<rparr>) = Returned (u\<lparr>rotor_readings := []\<rparr>)"
    by blast
  moreover have "spec_beam_switch X obj dest (s\<lparr>rotor_readings := pre @ []\<rparr>)
                   = F (s\<lparr>rotor_readings := pre @ []\<rparr>)"
    by (simp add: spec_beam_switch_def F_def)
  ultimately show ?thesis by metis
qed

lemma for_each_append:
  "for_each (xs @ ys) f s = and_then (for_each xs f s) (for_each ys f)"
proof (induction xs arbitrary: s)
  case Nil
  show ?case by simp
next
  case (Cons x xs)
  show ?case by (cases "f x s") (simp_all add: Cons.IH)
qed

lemma for_each_upt_turn:
  assumes ret: "for_each [0..<n] f s = Returned t" and k: "k < n"
  shows "\<exists>v u. for_each [0..<k] f s = Returned v \<and> f k v = Returned u"
proof -
  have "[0..<n] = [0..<k] @ [k..<n]"
    using k upt_add_eq_append [of 0 k "n - k"] by simp
  moreover have "[k..<n] = k # [Suc k..<n]"
    using k by (simp add: upt_conv_Cons)
  ultimately have "[0..<n] = [0..<k] @ k # [Suc k..<n]"
    by simp
  then have "and_then (for_each [0..<k] f s) (for_each (k # [Suc k..<n]) f) = Returned t"
    using ret by (simp add: for_each_append)
  then obtain v where v: "for_each [0..<k] f s = Returned v"
    and "and_then (f k v) (for_each [Suc k..<n] f) = Returned t"
    by (auto simp: and_then_Returned)
  then show ?thesis by (auto simp: and_then_Returned)
qed

lemma poll_arrival_arrived:
  "poll_arrival X rs s = Returned t \<Longrightarrow>
   azel_within_range X (rotor_location t) (rotor_cmd_location t)"
  by (induction rs arbitrary: s) (auto split: if_splits)

lemma visit_cell_turn:
  assumes "visit_cell X dest cell v = Returned u"
  shows "cell_turn X dest cell v u"
proof -
  let ?v = "v\<lparr>rotor_destination := dest\<rparr>"
  from assms obtain w
    where w: "point_at_offset X (fst cell) (snd cell) ?v = Returned w"
      and u: "u = w\<lparr>slept := slept w @ [5]\<rparr>"
    by (auto simp: visit_cell_def and_then_Returned sleep_def sleep_limit_def)
  have d: "dwells u = Suc (dwells v)"
    using assms by (rule visit_cell_Returned)
  show ?thesis
  proof (cases "within_bounds X (add_azel dest cell)")
    case True
    then have inb: "within_bounds X (add_azel (rotor_destination ?v) (fst cell, snd cell))"
      by simp
    from w inb have "poll_arrival X (rotor_readings ?v)
        (?v\<lparr>rotor_offsets := cell, rotor_cmd_location := add_azel dest cell\<rparr>) = Returned w"
      by (simp add: point_at_offset_def Let_def wait_for_arrival_def)
    from poll_arrival_arrived [OF this]
    have arr: "azel_within_range X (rotor_location w) (rotor_cmd_location w)" .
    have "rotor_cmd_location w = add_azel dest cell \<and> rotor_offsets w = cell
          \<and> command_error_logs w = command_error_logs v"
      using point_at_offset_accepted [OF inb] w by simp
    then show ?thesis using True arr d u by (simp add: cell_turn_def)
  next
    case False
    then have "\<not> within_bounds X (add_azel (rotor_destination ?v) (fst cell, snd cell))"
      by simp
    from point_at_offset_rejected [OF this] w
    have "w = log_message (OffsetOutOfBounds cell) ?v" by simp
    then show ?thesis using False d u by (simp add: cell_turn_def log_message_def)
  qed
qed

lemma n_point_scan_prefix_invariant:
  assumes "ephemeris_locations s1 obj = Some dest"
    and "for_each [0..<k] (n_point_scan_body X obj) s1 = Returned v"
  shows "ephemeris_locations v obj = Some dest \<and> beamwidth v = beamwidth s1"
proof -
  let ?P = "\<lambda>t. ephemeris_locations t obj = Some dest \<and> beamwidth t = beamwidth s1"
  have "?P (state_of (for_each [0..<k] (n_point_scan_body X obj) s1))"
  proof (rule for_each_invariant [where P = ?P])
    fix x :: nat and u :: daemon assume "?P u"
    then show "?P (state_of (n_point_scan_body X obj x u))"
      using n_point_scan_body_frame [of u obj dest X x] by simp
  next
    show "?P s1" using assms(1) by simp
  qed
  then show ?thesis using assms(2) by simp
qed

lemma spec_grid_cells_nth:
  "k < 25 \<Longrightarrow> spec_grid_cells X bw (snd dest) ! k = n_point_scan_offsets X bw dest k"
  using n_point_scan_offsets_grid [of X bw dest, symmetric] by simp

lemma n_point_scan_turns:
  assumes tab: "ephemeris_locations s obj = Some dest" and inb: "within_bounds X dest"
    and k: "k < 25"
    and v: "for_each [0..<k] (n_point_scan_body X obj)
              (radio_put (''soutrack'', PStr obj) (s\<lparr>ephemeris_cmd_location := None\<rparr>))
              = Returned v"
    and u: "n_point_scan_body X obj k v = Returned u"
  shows "cell_turn X dest (spec_grid_cells X (beamwidth s) (snd dest) ! k) v u"
proof -
  let ?s1 = "radio_put (''soutrack'', PStr obj) (s\<lparr>ephemeris_cmd_location := None\<rparr>)"
  have "ephemeris_locations ?s1 obj = Some dest" using tab by (simp add: radio_put_def)
  from n_point_scan_prefix_invariant [OF this v]
  have inv: "ephemeris_locations v obj = Some dest" "beamwidth v = beamwidth s"
    by (simp_all add: radio_put_def)
  have "visit_cell X dest (n_point_scan_offsets X (beamwidth s) dest k) v = Returned u"
    using n_point_scan_body_visit [OF inv(1) inb, of k] u inv(2) by simp
  from visit_cell_turn [OF this] show ?thesis
    by (simp add: spec_grid_cells_nth [OF k])
qed


lemma beam_switch_prefix_invariant:
  assumes "for_each [0..<k] (beam_switch_body X dest) s1 = Returned v"
  shows "beamwidth v = beamwidth s1"
proof -
  let ?P = "\<lambda>t. beamwidth t = beamwidth s1"
  have "?P (state_of (for_each [0..<k] (beam_switch_body X dest) s1))"
  proof (rule for_each_invariant [where P = ?P])
    fix x :: nat and u :: daemon assume "?P u"
    then show "?P (state_of (beam_switch_body X dest x u))"
      using beam_switch_body_frame [of X dest x u] by simp
  qed simp
  then show ?thesis using assms by simp
qed

lemma spec_beam_switch_legs_nth:
  "k < 3 \<Longrightarrow> spec_beam_switch_legs X bw (snd dest) ! k = beam_switch_offsets X bw dest k"
  using beam_switch_offsets_legs [of X bw dest, symmetric] by simp

lemma beam_switch_turns:
  assumes inb: "within_bounds X dest" and k: "k < 3"
    and v: "for_each [0..<k] (beam_switch_body X dest)
              (radio_put (''soutrack'', PStr obj) (s\<lparr>ephemeris_cmd_location := None\<rparr>))
              = Returned v"
    and u: "beam_switch_body X dest k v = Returned u"
  shows "cell_turn X dest (spec_beam_switch_legs X (beamwidth s) (snd dest) ! k) v u
         \<and> radio_queue u = radio_queue v @ [(''beam_switch'', PInt (int k + 1))]"
proof -
  let ?leg = "beam_switch_offsets X (beamwidth s) dest k"
  let ?v1 = "radio_put (''beam_switch'', PInt (int k + 1)) v"
  have bw: "beamwidth v = beamwidth s"
    using beam_switch_prefix_invariant [OF v] by (simp add: radio_put_def)
  have "visit_leg X dest (int k + 1, ?leg) v = Returned u"
    using beam_switch_body_visit [OF inb, of k v] u bw by simp
  then have "visit_cell X dest ?leg ?v1 = Returned u"
    by (simp add: visit_leg_def)
  from visit_cell_turn [OF this] have "cell_turn X dest ?leg v u"
    by (auto simp: cell_turn_def radio_put_def dwells_def split: if_splits)
  moreover have "radio_queue u = radio_queue v @ [(''beam_switch'', PInt (int k + 1))]"
    using beam_switch_body_frame [of X dest k v] u by simp
  ultimately show ?thesis
    by (simp add: spec_beam_switch_legs_nth [OF k])
qed

lemma n_point_scan_edge_run:
  "n_point_scan example_externals ''Sun'' edge_daemon
     = Returned (state_of (n_point_scan example_externals ''Sun'' edge_daemon))
   \<and> length (command_error_logs (state_of (n_point_scan example_externals ''Sun'' edge_daemon))) = 16
   \<and> rotor_readings (state_of (n_point_scan example_externals ''Sun'' edge_daemon)) = []"
  by (simp add: n_point_scan_def n_point_scan_body_def n_point_scan_offsets_def
        point_at_offset_def wait_for_arrival_def sleep_def sleep_limit_def radio_put_def
        log_message_def within_bounds_def add_azel_def upt_25 Let_def example_defs
        edge_daemon_def)

lemma beam_switch_edge_run:
  "beam_switch example_externals ''Sun''
     (example_daemon\<lparr>ephemeris_locations := [''Sun'' \<mapsto> (0, 0)],
                      rotor_location := (0, 0), rotor_readings := [(6, 0)]\<rparr>)
     = Returned
         (example_daemon
            \<lparr>ephemeris_locations := [''Sun'' \<mapsto> (0, 0)],
             ephemeris_cmd_location := Some ''Sun'',
             rotor_location := (6, 0),
             rotor_destination := (0, 0),
             rotor_offsets := (0, 0),
             rotor_cmd_location := (6, 0),
             radio_queue := [(''soutrack'', PStr ''Sun''), (''beam_switch'', PInt 1),
                             (''beam_switch'', PInt 2), (''beam_switch'', PInt 3),
                             (''beam_switch'', PInt 0)],
             command_error_logs := [OffsetOutOfBounds (- 6, 0)],
             slept := [5, 5, 1 / 10, 5],
             rotor_readings := []\<rparr>)"
  by (simp add: beam_switch_def beam_switch_body_def beam_switch_offsets_def
        point_at_offset_def wait_for_arrival_def sleep_def sleep_limit_def radio_put_def
        log_message_def within_bounds_def add_azel_def upt_3 Let_def example_defs)

text \<open>
  C4, as stated, fails for an object on the edge of the bounds. The object at azimuth 0
  and elevation 0 lies within the bounds, the scan returns after its 25 dwells, and 16
  of the 25 cells, the first of them the cell of the indices -2 and -2, were never
  commanded: their positions lie outside the bounds, and \<^verbatim>\<open>point_at_offset\<close>
  only logged them.
\<close>

theorem n_point_scan_skips_cells_counterexample:
  "ephemeris_locations edge_daemon ''Sun'' = Some (0, 0)
   \<and> within_bounds example_externals (0, 0)
   \<and> n_point_scan example_externals ''Sun'' edge_daemon
       = Returned (state_of (n_point_scan example_externals ''Sun'' edge_daemon))
   \<and> dwells (state_of (n_point_scan example_externals ''Sun'' edge_daemon)) = 25
   \<and> command_error_logs edge_daemon = []
   \<and> length (command_error_logs (state_of (n_point_scan example_externals ''Sun'' edge_daemon)))
       = 16
   \<and> hd (command_error_logs (state_of (n_point_scan example_externals ''Sun'' edge_daemon)))
       = OffsetOutOfBounds (n_point_scan_offsets example_externals 6 (0, 0) 0)
   \<and> \<not> within_bounds example_externals
         (add_azel (0, 0) (n_point_scan_offsets example_externals 6 (0, 0) 0))"
proof -
  have run: "n_point_scan example_externals ''Sun'' edge_daemon
       = Returned (state_of (n_point_scan example_externals ''Sun'' edge_daemon))"
    and logs: "length (command_error_logs
                 (state_of (n_point_scan example_externals ''Sun'' edge_daemon))) = 16"
    using n_point_scan_edge_run by blast+
  have first: "hd (command_error_logs (state_of (n_point_scan example_externals ''Sun'' edge_daemon)))
       = OffsetOutOfBounds (n_point_scan_offsets example_externals 6 (0, 0) 0)"
    by (simp add: n_point_scan_def n_point_scan_body_def n_point_scan_offsets_def
        point_at_offset_def wait_for_arrival_def sleep_def sleep_limit_def radio_put_def
        log_message_def within_bounds_def add_azel_def upt_25 Let_def example_defs
        edge_daemon_def)
  have d: "dwells (state_of (n_point_scan example_externals ''Sun'' edge_daemon)) = 25"
    by (simp add: n_point_scan_def n_point_scan_body_def n_point_scan_offsets_def
        point_at_offset_def wait_for_arrival_def sleep_def sleep_limit_def radio_put_def
        log_message_def within_bounds_def add_azel_def upt_25 Let_def example_defs
        edge_daemon_def dwells_def)
  have tab: "ephemeris_locations edge_daemon ''Sun'' = Some (0, 0)"
    and nolog: "command_error_logs edge_daemon = []"
    by (simp_all add: edge_daemon_def example_daemon_def)
  have inb: "within_bounds example_externals (0, 0)"
    by (simp add: within_bounds_def example_externals_def)
  have out: "\<not> within_bounds example_externals
         (add_azel (0, 0) (n_point_scan_offsets example_externals 6 (0, 0) 0))"
    by (simp add: within_bounds_def add_azel_def n_point_scan_offsets_def Let_def
          example_externals_def)
  show ?thesis using run logs first d tab nolog inb out by blast
qed

text \<open>
  C4, amended. For an object of the table that lies within the bounds,
  \<^verbatim>\<open>n_point_scan\<close> is the specification's scan: it goes through exactly 25
  cells, the grid of the indices \<^verbatim>\<open>i, j\<close> from -2 to 2 with elevation offset
  \<^verbatim>\<open>i * beamwidth / 2\<close> and azimuth offset \<^verbatim>\<open>j * beamwidth / 2\<close> divided by
  the cosine of elevation plus elevation offset, and it never raises. In the turn of
  each cell it dwells 5 once; a cell whose position lies within the bounds is
  commanded, with the cell as the offset, and the turn ends with the mount within
  tolerance of it; a cell whose position lies outside the bounds is logged and not
  commanded. When the scan returns, every one of the 25 turns has taken place, in the
  order of the grid, the offset is (0, 0) and the object is tracked by name; and with
  a tolerance that accepts a mount standing on its target there are rotor readings
  with which the scan returns.
\<close>

theorem n_point_scan_visits_grid:
  assumes "ephemeris_locations s obj = Some dest" and "within_bounds X dest"
  shows "n_point_scan X obj s = spec_n_point_scan X obj dest s
     \<and> map (n_point_scan_offsets X (beamwidth s) dest) [0..<25]
         = spec_grid_cells X (beamwidth s) (snd dest)
     \<and> length (spec_grid_cells X (beamwidth s) (snd dest)) = 25
     \<and> not_raised (n_point_scan X obj s)
     \<and> (\<forall>k v u. k < 25
           \<and> for_each [0..<k] (n_point_scan_body X obj)
               (radio_put (''soutrack'', PStr obj) (s\<lparr>ephemeris_cmd_location := None\<rparr>))
               = Returned v
           \<and> n_point_scan_body X obj k v = Returned u \<longrightarrow>
           cell_turn X dest (spec_grid_cells X (beamwidth s) (snd dest) ! k) v u)
     \<and> (\<forall>t. n_point_scan X obj s = Returned t \<longrightarrow>
           rotor_offsets t = (0, 0) \<and> ephemeris_cmd_location t = Some obj
           \<and> dwells t = dwells s + 25
           \<and> (\<forall>k < 25. \<exists>v u.
                 for_each [0..<k] (n_point_scan_body X obj)
                   (radio_put (''soutrack'', PStr obj) (s\<lparr>ephemeris_cmd_location := None\<rparr>))
                   = Returned v
                 \<and> n_point_scan_body X obj k v = Returned u
                 \<and> cell_turn X dest (spec_grid_cells X (beamwidth s) (snd dest) ! k) v u))
     \<and> ((\<forall>p. azel_within_range X p p) \<longrightarrow>
           (\<exists>rs t. n_point_scan X obj (s\<lparr>rotor_readings := rs\<rparr>) = Returned t))"
proof -
  let ?s1 = "radio_put (''soutrack'', PStr obj) (s\<lparr>ephemeris_cmd_location := None\<rparr>)"
  let ?grid = "spec_grid_cells X (beamwidth s) (snd dest)"
  have eq: "n_point_scan X obj u = spec_n_point_scan X obj dest u"
    if "ephemeris_locations u obj = Some dest" for u
    using that assms(2) by (rule n_point_scan_refines)
  have a: "n_point_scan X obj s = spec_n_point_scan X obj dest s"
    using assms(1) by (rule eq)
  have turn: "\<forall>k v u. k < 25
           \<and> for_each [0..<k] (n_point_scan_body X obj) ?s1 = Returned v
           \<and> n_point_scan_body X obj k v = Returned u \<longrightarrow>
           cell_turn X dest (?grid ! k) v u"
    using n_point_scan_turns [OF assms] by blast
  have b: "\<forall>t. n_point_scan X obj s = Returned t \<longrightarrow>
           rotor_offsets t = (0, 0) \<and> ephemeris_cmd_location t = Some obj
           \<and> dwells t = dwells s + 25
           \<and> (\<forall>k < 25. \<exists>v u.
                 for_each [0..<k] (n_point_scan_body X obj) ?s1 = Returned v
                 \<and> n_point_scan_body X obj k v = Returned u
                 \<and> cell_turn X dest (?grid ! k) v u)"
  proof (intro allI impI)
    fix t assume ret: "n_point_scan X obj s = Returned t"
    then obtain w where w: "for_each [0..<25] (n_point_scan_body X obj) ?s1 = Returned w"
      by (auto simp: n_point_scan_def and_then_Returned)
    have "\<forall>k < 25. \<exists>v u.
                 for_each [0..<k] (n_point_scan_body X obj) ?s1 = Returned v
                 \<and> n_point_scan_body X obj k v = Returned u
                 \<and> cell_turn X dest (?grid ! k) v u"
    proof (intro allI impI)
      fix k :: nat assume k: "k < 25"
      from for_each_upt_turn [OF w k] obtain v u
        where "for_each [0..<k] (n_point_scan_body X obj) ?s1 = Returned v"
          and "n_point_scan_body X obj k v = Returned u"
        by blast
      then show "\<exists>v u. for_each [0..<k] (n_point_scan_body X obj) ?s1 = Returned v
                 \<and> n_point_scan_body X obj k v = Returned u
                 \<and> cell_turn X dest (?grid ! k) v u"
        using turn k by blast
    qed
    then show "rotor_offsets t = (0, 0) \<and> ephemeris_cmd_location t = Some obj
           \<and> dwells t = dwells s + 25
           \<and> (\<forall>k < 25. \<exists>v u.
                 for_each [0..<k] (n_point_scan_body X obj) ?s1 = Returned v
                 \<and> n_point_scan_body X obj k v = Returned u
                 \<and> cell_turn X dest (?grid ! k) v u)"
      using spec_n_point_scan_Returned [of X obj dest s t] ret a by simp
  qed
  have c: "(\<forall>p. azel_within_range X p p) \<longrightarrow>
           (\<exists>rs t. n_point_scan X obj (s\<lparr>rotor_readings := rs\<rparr>) = Returned t)"
  proof
    assume refl: "\<forall>p. azel_within_range X p p"
    have "n_point_scan X obj (s\<lparr>rotor_readings := rs\<rparr>)
            = spec_n_point_scan X obj dest (s\<lparr>rotor_readings := rs\<rparr>)" for rs
      using assms(1) by (intro eq) simp
    then show "\<exists>rs t. n_point_scan X obj (s\<lparr>rotor_readings := rs\<rparr>) = Returned t"
      using spec_n_point_scan_completes [OF refl, of obj dest s] by simp
  qed
  show ?thesis
    using a turn b c n_point_scan_offsets_grid [of X "beamwidth s" dest]
      length_spec_grid_cells [of X "beamwidth s" "snd dest"]
      n_point_scan_not_raised [OF assms(1), of X]
    by blast
qed

theorem n_point_scan_visits_grid_witness:
  "ephemeris_locations edge_daemon ''Sun'' = Some (0, 0)
   \<and> within_bounds example_externals (0, 0)
   \<and> n_point_scan example_externals ''Sun'' edge_daemon
       = Returned (state_of (n_point_scan example_externals ''Sun'' edge_daemon))
   \<and> n_point_scan example_externals ''Sun'' edge_daemon
       = spec_n_point_scan example_externals ''Sun'' (0, 0) edge_daemon
   \<and> rotor_offsets (state_of (n_point_scan example_externals ''Sun'' edge_daemon)) = (0, 0)
   \<and> ephemeris_cmd_location (state_of (n_point_scan example_externals ''Sun'' edge_daemon))
       = Some ''Sun''
   \<and> dwells (state_of (n_point_scan example_externals ''Sun'' edge_daemon))
       = dwells edge_daemon + 25"
proof -
  have h1: "ephemeris_locations edge_daemon ''Sun'' = Some (0, 0)"
    by (simp add: edge_daemon_def)
  have h2: "within_bounds example_externals (0, 0)"
    by (simp add: within_bounds_def example_externals_def)
  have run: "n_point_scan example_externals ''Sun'' edge_daemon
       = Returned (state_of (n_point_scan example_externals ''Sun'' edge_daemon))"
    using n_point_scan_edge_run by blast
  show ?thesis
    using h1 h2 run n_point_scan_visits_grid [OF h1 h2] by blast
qed

text \<open>
  C5, as stated, fails for an object on the edge of the bounds. For the object at
  azimuth 0 and elevation 0, which lies within the bounds, the first leg, at azimuth
  -6, is outside them; the beam switch logs it, dwells, and commands only the other
  two legs.
\<close>

theorem beam_switch_skips_leg_counterexample:
  "ephemeris_locations
     (edge_daemon\<lparr>rotor_readings := [(6, 0)]\<rparr>) ''Sun'' = Some (0, 0)
   \<and> within_bounds example_externals (0, 0)
   \<and> \<not> within_bounds example_externals (- 6, 0)
   \<and> beam_switch example_externals ''Sun'' (edge_daemon\<lparr>rotor_readings := [(6, 0)]\<rparr>)
     = Returned
         (example_daemon
            \<lparr>ephemeris_locations := [''Sun'' \<mapsto> (0, 0)],
             ephemeris_cmd_location := Some ''Sun'',
             rotor_location := (6, 0),
             rotor_destination := (0, 0),
             rotor_offsets := (0, 0),
             rotor_cmd_location := (6, 0),
             radio_queue := [(''soutrack'', PStr ''Sun''), (''beam_switch'', PInt 1),
                             (''beam_switch'', PInt 2), (''beam_switch'', PInt 3),
                             (''beam_switch'', PInt 0)],
             command_error_logs := [OffsetOutOfBounds (- 6, 0)],
             slept := [5, 5, 1 / 10, 5],
             rotor_readings := []\<rparr>)"
proof -
  have same: "edge_daemon\<lparr>rotor_readings := [(6, 0)]\<rparr>
                = example_daemon\<lparr>ephemeris_locations := [''Sun'' \<mapsto> (0, 0)],
                      rotor_location := (0, 0), rotor_readings := [(6, 0)]\<rparr>"
    by (simp add: edge_daemon_def)
  have "\<not> within_bounds example_externals (- 6, 0)"
    and "within_bounds example_externals (0, 0)"
    by (simp_all add: within_bounds_def example_externals_def)
  then show ?thesis
    unfolding same using beam_switch_edge_run by simp
qed

text \<open>
  C5, amended. For an object of the table that lies within the bounds,
  \<^verbatim>\<open>beam_switch\<close> is the specification's beam switch: three legs with azimuth
  offsets -1, 0 and +1 times the beamwidth over the cosine of the elevation and no
  elevation offset, and it never raises. The turn of each leg puts the leg's label,
  1, 2 or 3, on the radio queue and dwells 5 once; a leg whose position lies within
  the bounds is commanded, with the leg as the offset, and the turn ends with the
  mount within tolerance of it; a leg whose position lies outside the bounds is logged
  and not commanded. When the beam switch returns, all three turns have taken place
  in order, the labels it has put on the radio queue are 1, 2, 3 and then 0 and no
  others, the offset is (0, 0) and the object is tracked; and with a tolerance that
  accepts a mount standing on its target there are rotor readings with which it
  returns.
\<close>

theorem beam_switch_sweeps_three_legs:
  assumes "ephemeris_locations s obj = Some dest" and "within_bounds X dest"
  shows "beam_switch X obj s = spec_beam_switch X obj dest s
     \<and> map (beam_switch_offsets X (beamwidth s) dest) [0..<3]
         = spec_beam_switch_legs X (beamwidth s) (snd dest)
     \<and> not_raised (beam_switch X obj s)
     \<and> (\<forall>k v u. k < 3
           \<and> for_each [0..<k] (beam_switch_body X dest)
               (radio_put (''soutrack'', PStr obj) (s\<lparr>ephemeris_cmd_location := None\<rparr>))
               = Returned v
           \<and> beam_switch_body X dest k v = Returned u \<longrightarrow>
           cell_turn X dest (spec_beam_switch_legs X (beamwidth s) (snd dest) ! k) v u
           \<and> radio_queue u = radio_queue v @ [(''beam_switch'', PInt (int k + 1))])
     \<and> (\<forall>t. beam_switch X obj s = Returned t \<longrightarrow>
           beam_switch_labels (radio_queue t)
             = beam_switch_labels (radio_queue s) @ [PInt 1, PInt 2, PInt 3, PInt 0]
           \<and> rotor_offsets t = (0, 0) \<and> ephemeris_cmd_location t = Some obj
           \<and> dwells t = dwells s + 3
           \<and> (\<forall>k < 3. \<exists>v u.
                 for_each [0..<k] (beam_switch_body X dest)
                   (radio_put (''soutrack'', PStr obj) (s\<lparr>ephemeris_cmd_location := None\<rparr>))
                   = Returned v
                 \<and> beam_switch_body X dest k v = Returned u
                 \<and> cell_turn X dest (spec_beam_switch_legs X (beamwidth s) (snd dest) ! k) v u))
     \<and> ((\<forall>p. azel_within_range X p p) \<longrightarrow>
           (\<exists>rs t. beam_switch X obj (s\<lparr>rotor_readings := rs\<rparr>) = Returned t))"
proof -
  let ?s1 = "radio_put (''soutrack'', PStr obj) (s\<lparr>ephemeris_cmd_location := None\<rparr>)"
  let ?legs = "spec_beam_switch_legs X (beamwidth s) (snd dest)"
  have eq: "beam_switch X obj u = spec_beam_switch X obj dest u"
    if "ephemeris_locations u obj = Some dest" for u
    using that assms(2) by (rule beam_switch_refines)
  have a: "beam_switch X obj s = spec_beam_switch X obj dest s"
    using assms(1) by (rule eq)
  have turn: "\<forall>k v u. k < 3
           \<and> for_each [0..<k] (beam_switch_body X dest) ?s1 = Returned v
           \<and> beam_switch_body X dest k v = Returned u \<longrightarrow>
           cell_turn X dest (?legs ! k) v u
           \<and> radio_queue u = radio_queue v @ [(''beam_switch'', PInt (int k + 1))]"
    using beam_switch_turns [OF assms(2), of _ obj s] by blast
  have tab1: "ephemeris_locations ?s1 obj = Some dest"
    using assms(1) by (simp add: radio_put_def)
  have b: "\<forall>t. beam_switch X obj s = Returned t \<longrightarrow>
           beam_switch_labels (radio_queue t)
             = beam_switch_labels (radio_queue s) @ [PInt 1, PInt 2, PInt 3, PInt 0]
           \<and> rotor_offsets t = (0, 0) \<and> ephemeris_cmd_location t = Some obj
           \<and> dwells t = dwells s + 3
           \<and> (\<forall>k < 3. \<exists>v u.
                 for_each [0..<k] (beam_switch_body X dest) ?s1 = Returned v
                 \<and> beam_switch_body X dest k v = Returned u
                 \<and> cell_turn X dest (?legs ! k) v u)"
  proof (intro allI impI)
    fix t assume ret: "beam_switch X obj s = Returned t"
    from ret tab1 obtain w where w: "for_each [0..<3] (beam_switch_body X dest) ?s1 = Returned w"
      unfolding beam_switch_def Let_def by (auto simp: and_then_Returned)
    have turns: "\<forall>k < 3. \<exists>v u.
                 for_each [0..<k] (beam_switch_body X dest) ?s1 = Returned v
                 \<and> beam_switch_body X dest k v = Returned u
                 \<and> cell_turn X dest (?legs ! k) v u"
    proof (intro allI impI)
      fix k :: nat assume k: "k < 3"
      from for_each_upt_turn [OF w k] obtain v u
        where "for_each [0..<k] (beam_switch_body X dest) ?s1 = Returned v"
          and "beam_switch_body X dest k v = Returned u"
        by blast
      then show "\<exists>v u. for_each [0..<k] (beam_switch_body X dest) ?s1 = Returned v
                 \<and> beam_switch_body X dest k v = Returned u
                 \<and> cell_turn X dest (?legs ! k) v u"
        using turn k by blast
    qed
    have "dwells t = dwells s + 3"
      using ret a spec_beam_switch_dwells [of X obj dest s t] by simp
    then show "beam_switch_labels (radio_queue t)
             = beam_switch_labels (radio_queue s) @ [PInt 1, PInt 2, PInt 3, PInt 0]
           \<and> rotor_offsets t = (0, 0) \<and> ephemeris_cmd_location t = Some obj
           \<and> dwells t = dwells s + 3
           \<and> (\<forall>k < 3. \<exists>v u.
                 for_each [0..<k] (beam_switch_body X dest) ?s1 = Returned v
                 \<and> beam_switch_body X dest k v = Returned u
                 \<and> cell_turn X dest (?legs ! k) v u)"
      using beam_switch_Returned [OF assms(1) ret] turns by (simp add: beam_switch_labels_def)
  qed
  have c: "(\<forall>p. azel_within_range X p p) \<longrightarrow>
           (\<exists>rs t. beam_switch X obj (s\<lparr>rotor_readings := rs\<rparr>) = Returned t)"
  proof
    assume refl: "\<forall>p. azel_within_range X p p"
    have "beam_switch X obj (s\<lparr>rotor_readings := rs\<rparr>)
            = spec_beam_switch X obj dest (s\<lparr>rotor_readings := rs\<rparr>)" for rs
      using assms(1) by (intro eq) simp
    then show "\<exists>rs t. beam_switch X obj (s\<lparr>rotor_readings := rs\<rparr>) = Returned t"
      using spec_beam_switch_completes [OF refl, of obj dest s] by simp
  qed
  show ?thesis
    using a turn b c beam_switch_offsets_legs [of X "beamwidth s" dest]
      beam_switch_not_raised [OF assms(1), of X]
    by blast
qed


theorem beam_switch_sweeps_three_legs_witness:
  "ephemeris_locations
     (example_daemon\<lparr>ephemeris_locations := [''Sun'' \<mapsto> (100, 0)],
                      rotor_readings := [(94, 0), (100, 0), (106, 0)]\<rparr>) ''Sun''
     = Some (100, 0)
   \<and> within_bounds example_externals (100, 0)
   \<and> beam_switch example_externals ''Sun''
        (example_daemon\<lparr>ephemeris_locations := [''Sun'' \<mapsto> (100, 0)],
                         rotor_readings := [(94, 0), (100, 0), (106, 0)]\<rparr>)
     = Returned
         (example_daemon
            \<lparr>ephemeris_locations := [''Sun'' \<mapsto> (100, 0)],
             ephemeris_cmd_location := Some ''Sun'',
             rotor_location := (106, 0),
             rotor_destination := (100, 0),
             rotor_offsets := (0, 0),
             rotor_cmd_location := (106, 0),
             radio_queue := [(''soutrack'', PStr ''Sun''), (''beam_switch'', PInt 1),
                             (''beam_switch'', PInt 2), (''beam_switch'', PInt 3),
                             (''beam_switch'', PInt 0)],
             slept := [1 / 10, 5, 1 / 10, 5, 1 / 10, 5],
             rotor_readings := []\<rparr>)
   \<and> beam_switch_labels
        (radio_queue
           (state_of (beam_switch example_externals ''Sun''
              (example_daemon\<lparr>ephemeris_locations := [''Sun'' \<mapsto> (100, 0)],
                               rotor_readings := [(94, 0), (100, 0), (106, 0)]\<rparr>))))
     = [PInt 1, PInt 2, PInt 3, PInt 0]"
proof -
  let ?s = "example_daemon\<lparr>ephemeris_locations := [''Sun'' \<mapsto> (100, 0)],
                      rotor_readings := [(94, 0), (100, 0), (106, 0)]\<rparr>"
  let ?t = "example_daemon
            \<lparr>ephemeris_locations := [''Sun'' \<mapsto> (100, 0)],
             ephemeris_cmd_location := Some ''Sun'',
             rotor_location := (106, 0),
             rotor_destination := (100, 0),
             rotor_offsets := (0, 0),
             rotor_cmd_location := (106, 0),
             radio_queue := [(''soutrack'', PStr ''Sun''), (''beam_switch'', PInt 1),
                             (''beam_switch'', PInt 2), (''beam_switch'', PInt 3),
                             (''beam_switch'', PInt 0)],
             slept := [1 / 10, 5, 1 / 10, 5, 1 / 10, 5],
             rotor_readings := []\<rparr>"
  have h1: "ephemeris_locations ?s ''Sun'' = Some (100, 0)"
    by simp
  have h2: "within_bounds example_externals (100, 0)"
    by (simp add: within_bounds_def example_externals_def)
  have run: "beam_switch example_externals ''Sun'' ?s = Returned ?t"
    by (simp add: beam_switch_def beam_switch_body_def beam_switch_offsets_def
          point_at_offset_def wait_for_arrival_def sleep_def sleep_limit_def radio_put_def
          within_bounds_def
          add_azel_def upt_3 Let_def example_defs)
  have "beam_switch_labels (radio_queue ?t)
          = beam_switch_labels (radio_queue ?s) @ [PInt 1, PInt 2, PInt 3, PInt 0]"
    using beam_switch_sweeps_three_legs [OF h1 h2] run by blast
  then have "beam_switch_labels (radio_queue (state_of (beam_switch example_externals ''Sun'' ?s)))
          = [PInt 1, PInt 2, PInt 3, PInt 0]"
    unfolding run by (simp add: beam_switch_labels_def example_daemon_def)
  then show ?thesis using h1 h2 run by blast
qed

end
